theory Spec2Isabelle
  imports Main "HOL-Library.AList" "HOL-Library.Word"
begin

section \<open>Strings, bytes and the platform\<close>

text \<open>
  JavaScript strings are modelled as \<^typ>\<open>string\<close>: sequences of code units below 256.
  The text that \<open>_encrypt\<close> takes and \<open>_decrypt\<close> returns is modelled in full, as a
  list of 16-bit code units, because the \<open>'utf8'\<close> codec between the two treats
  surrogate code units specially.  A Node \<open>Buffer\<close> is a list of bytes.  A leading
  underscore of a source name (\<open>_encrypt\<close>, \<open>_getOrigin\<close>, ...) is dropped, since an
  Isabelle name cannot start with one.
\<close>

type_synonym byte = "8 word"
type_synonym bytes = "byte list"
type_synonym utf16 = "16 word list"

text \<open>A string of the model as JavaScript code units.\<close>

definition code_units :: "string \<Rightarrow> utf16" where
  "code_units s = map (\<lambda>c. word_of_nat (of_char c)) s"

text \<open>JavaScript exceptions, as values.\<close>

datatype exn = IOError | CryptoError | SyntaxError | TypeError | ReferenceError

text \<open>\<open>Buffer.slice(a, b)\<close> and \<open>Buffer.slice(a)\<close>: out-of-range bounds are clamped.\<close>

definition slice :: "nat \<Rightarrow> nat \<Rightarrow> 'a list \<Rightarrow> 'a list" where
  "slice a b xs = take (b - a) (drop a xs)"

definition slice_from :: "nat \<Rightarrow> 'a list \<Rightarrow> 'a list" where
  "slice_from a xs = drop a xs"

text \<open>
  The \<open>'hex'\<close> encoding of Node buffers.  \<open>cipher.update(.., 'hex')\<close> writes two
  lower-case digits per byte; \<open>Buffer.from(s, 'hex')\<close> reads pairs of digits and stops
  at the first pair that is not hexadecimal (a trailing single digit is dropped).
\<close>

definition hex_digit :: "nat \<Rightarrow> char" where
  "hex_digit n = (if n < 10 then char_of (48 + n) else char_of (87 + n))"

definition hex_val :: "char \<Rightarrow> nat option" where
  "hex_val c =
     (let n = (of_char c :: nat) in
      if 48 \<le> n \<and> n \<le> 57 then Some (n - 48)
      else if 97 \<le> n \<and> n \<le> 102 then Some (n - 87)
      else if 65 \<le> n \<and> n \<le> 70 then Some (n - 55)
      else None)"

definition to_hex :: "bytes \<Rightarrow> string" where
  "to_hex bs = concat (map (\<lambda>b. [hex_digit (unat b div 16), hex_digit (unat b mod 16)]) bs)"

fun from_hex :: "string \<Rightarrow> bytes" where
  "from_hex (a # b # rest) =
     (case hex_val a of
        None \<Rightarrow> []
      | Some h \<Rightarrow>
          (case hex_val b of
             None \<Rightarrow> []
           | Some l \<Rightarrow> (word_of_nat (16 * h + l) :: byte) # from_hex rest))"
| "from_hex _ = []"

text \<open>
  The \<open>'utf8'\<close> encoding of Node, on code units and bytes as numbers.  Writing: a
  surrogate pair becomes the four bytes of its code point, and a surrogate without its
  partner becomes the three bytes of U+FFFD.  Reading: a well-formed sequence gives its
  code point (a surrogate pair above U+FFFF); a byte that cannot begin or continue a
  sequence, and a sequence cut short, give U+FFFD, and reading resumes at the byte that
  did not fit.
\<close>

definition is_high :: "nat \<Rightarrow> bool" where
  "is_high u = (55296 \<le> u \<and> u < 56320)"

definition is_low :: "nat \<Rightarrow> bool" where
  "is_low u = (56320 \<le> u \<and> u < 57344)"

fun utf8_bytes :: "nat list \<Rightarrow> nat list" where
  "utf8_bytes [] = []"
| "utf8_bytes (u # us) =
     (if u < 128 then u # utf8_bytes us
      else if u < 2048 then (192 + u div 64) # (128 + u mod 64) # utf8_bytes us
      else if is_high u then
        (case us of
           [] \<Rightarrow> [239, 191, 189]
         | v # vs \<Rightarrow>
             if is_low v then
               (let cp = 65536 + (u - 55296) * 1024 + (v - 56320)
                in (240 + cp div 262144) # (128 + cp div 4096 mod 64) #
                   (128 + cp div 64 mod 64) # (128 + cp mod 64) # utf8_bytes vs)
             else 239 # 191 # 189 # utf8_bytes (v # vs))
      else if is_low u then 239 # 191 # 189 # utf8_bytes us
      else (224 + u div 4096) # (128 + u div 64 mod 64) # (128 + u mod 64) # utf8_bytes us)"

definition cont :: "nat \<Rightarrow> bool" where
  "cont b = (128 \<le> b \<and> b < 192)"

definition second_of3 :: "nat \<Rightarrow> nat \<Rightarrow> bool" where
  "second_of3 b c =
     (if b = 224 then 160 \<le> c \<and> c < 192 else if b = 237 then 128 \<le> c \<and> c < 160 else cont c)"

definition second_of4 :: "nat \<Rightarrow> nat \<Rightarrow> bool" where
  "second_of4 b c =
     (if b = 240 then 144 \<le> c \<and> c < 192 else if b = 244 then 128 \<le> c \<and> c < 144 else cont c)"

fun utf8_units :: "nat list \<Rightarrow> nat list" where
  "utf8_units [] = []"
| "utf8_units (b # bs) =
     (if b < 128 then b # utf8_units bs
      else if 194 \<le> b \<and> b < 224 then
        (case bs of
           [] \<Rightarrow> [65533]
         | c # cs \<Rightarrow>
             if cont c then ((b - 192) * 64 + (c - 128)) # utf8_units cs
             else 65533 # utf8_units (c # cs))
      else if 224 \<le> b \<and> b < 240 then
        (case bs of
           [] \<Rightarrow> [65533]
         | c # cs \<Rightarrow>
             if second_of3 b c then
               (case cs of
                  [] \<Rightarrow> [65533]
                | d # ds \<Rightarrow>
                    if cont d then ((b - 224) * 4096 + (c - 128) * 64 + (d - 128)) # utf8_units ds
                    else 65533 # utf8_units (d # ds))
             else 65533 # utf8_units (c # cs))
      else if 240 \<le> b \<and> b < 245 then
        (case bs of
           [] \<Rightarrow> [65533]
         | c # cs \<Rightarrow>
             if second_of4 b c then
               (case cs of
                  [] \<Rightarrow> [65533]
                | d # ds \<Rightarrow>
                    if cont d then
                      (case ds of
                         [] \<Rightarrow> [65533]
                       | e # es \<Rightarrow>
                           if cont e then
                             (let cp = (b - 240) * 262144 + (c - 128) * 4096 + (d - 128) * 64 + (e - 128)
                              in (55296 + (cp - 65536) div 1024) # (56320 + (cp - 65536) mod 1024) #
                                 utf8_units es)
                           else 65533 # utf8_units (e # es))
                    else 65533 # utf8_units (d # ds))
             else 65533 # utf8_units (c # cs))
      else 65533 # utf8_units bs)"

definition utf8_encode :: "utf16 \<Rightarrow> bytes" where
  "utf8_encode s = map word_of_nat (utf8_bytes (map unat s))"

definition utf8_decode :: "bytes \<Rightarrow> utf16" where
  "utf8_decode bs = map word_of_nat (utf8_units (map unat bs))"

text \<open>The result of \<open>new URL(s)\<close>, with the three properties the program reads.\<close>

record url =
  protocol :: string
  host :: string
  hostname :: string

text \<open>A stored credential, as \<open>saveCredential\<close> builds it.\<close>

record credential =
  username :: string
  password :: string
  createdAt :: int
  updatedAt :: int

text \<open>
  What the program takes from Electron and Node, as parameters: the URL parser, the OS
  secret store (\<open>safeStorage\<close>), AES-256-GCM (\<open>crypto.createCipheriv\<close> with
  \<open>update\<close>, \<open>final\<close> and \<open>getAuthTag\<close> taken together, giving ciphertext and
  tag, and \<open>createDecipheriv\<close> with \<open>setAuthTag\<close>, \<open>update\<close>, \<open>final\<close>,
  taking key, nonce, tag and ciphertext), and \<open>JSON\<close> at the two types the program
  stores.  \<open>JSON_parse_credentials\<close> is \<open>JSON.parse\<close> followed by
  \<open>Object.entries\<close>, and \<open>JSON_parse_sites\<close> is \<open>JSON.parse\<close> up to the point
  where \<open>new Set\<close> has read the array.  \<open>None\<close> is a thrown exception.
\<close>

record platform =
  URL_parse :: "string \<Rightarrow> url option"
  safeStorage_isEncryptionAvailable :: "bool option"
  safeStorage_encryptString :: "utf16 \<Rightarrow> bytes option"
  safeStorage_decryptString :: "bytes \<Rightarrow> utf16 option"
  aes_256_gcm_encrypt :: "bytes \<Rightarrow> bytes \<Rightarrow> bytes \<Rightarrow> (bytes \<times> bytes) option"
  aes_256_gcm_decrypt :: "bytes \<Rightarrow> bytes \<Rightarrow> bytes \<Rightarrow> bytes \<Rightarrow> bytes option"
  JSON_stringify_credentials :: "(string \<times> credential list) list \<Rightarrow> utf16"
  JSON_parse_credentials :: "utf16 \<Rightarrow> (string \<times> credential list) list option"
  JSON_stringify_sites :: "string list \<Rightarrow> string"
  JSON_parse_sites :: "string \<Rightarrow> string list option"

text \<open>
  What the environment returns during one call: the two readings of \<open>Date.now()\<close> in
  \<open>saveCredential\<close> (for \<open>createdAt\<close>, then for \<open>updatedAt\<close>), the random
  sources behind \<open>crypto.randomBytes(32)\<close> (a fresh key) and
  \<open>crypto.randomBytes(16)\<close> (the nonce), and whether \<open>fs.readFileSync\<close> and
  \<open>fs.writeFileSync\<close> throw.
\<close>

record env =
  now_created :: int
  now_updated :: int
  rand_key :: "nat \<Rightarrow> byte"
  rand_iv :: "nat \<Rightarrow> byte"
  io_error :: bool

definition randomBytes :: "(nat \<Rightarrow> byte) \<Rightarrow> nat \<Rightarrow> bytes" where
  "randomBytes src n = map src [0..<n]"

text \<open>
  \<open>new URL(s)\<close>: the empty string has no scheme, so the constructor throws on it
  whatever the parser does elsewhere.
\<close>

definition new_URL :: "platform \<Rightarrow> string \<Rightarrow> url option" where
  "new_URL P s = (if s = [] then None else URL_parse P s)"

section \<open>CredentialManager\<close>

text \<open>
  The fields of a \<open>CredentialManager\<close> together with the three files it owns.  The
  \<open>Map\<close> from origin to credentials is an association list in insertion order
  (\<open>Map.set\<close> is \<^const>\<open>AList.update\<close>); the \<open>Set\<close> of never-save origins is a
  list in insertion order.
\<close>

record cm_state =
  useOSStorage :: bool
  credentialsCache :: "(string \<times> credential list) list"
  neverSaveSites :: "string list"
  credentialsFile :: "bytes option"
  neverSaveFile :: "string option"
  encryptionKeyFile :: "bytes option"

text \<open>\<open>Set.add\<close>, \<open>Set.delete\<close>, \<open>new Set(array)\<close> and \<open>Set.has\<close>.\<close>

definition set_add :: "'a \<Rightarrow> 'a list \<Rightarrow> 'a list" where
  "set_add x xs = (if x \<in> set xs then xs else xs @ [x])"

definition set_delete :: "'a \<Rightarrow> 'a list \<Rightarrow> 'a list" where
  "set_delete x xs = removeAll x xs"

definition new_Set :: "'a list \<Rightarrow> 'a list" where
  "new_Set xs = foldl (\<lambda>s x. set_add x s) [] xs"

definition set_has :: "'a list \<Rightarrow> 'a \<Rightarrow> bool" where
  "set_has xs x = (x \<in> set xs)"

text \<open>\<open>Array.prototype.findIndex\<close>: the first index that satisfies the test, or -1.\<close>

fun findIndex :: "('a \<Rightarrow> bool) \<Rightarrow> 'a list \<Rightarrow> int" where
  "findIndex p [] = -1"
| "findIndex p (x # xs) =
     (if p x then 0 else (let i = findIndex p xs in if i < 0 then -1 else i + 1))"

text \<open>
  \<open>_getEncryptionKey\<close>: read the key file, or create it from 32 random bytes.  The
  result is the exception or the key, and the state the call leaves behind.
\<close>

definition getEncryptionKey :: "env \<Rightarrow> cm_state \<Rightarrow> (exn + bytes) \<times> cm_state" where
  "getEncryptionKey E st =
     (case encryptionKeyFile st of
        Some k \<Rightarrow> if io_error E then (Inl IOError, st) else (Inr k, st)
      | None \<Rightarrow>
          (let key = randomBytes (rand_key E) 32 in
           if io_error E then (Inl IOError, st)
           else (Inr key, st\<lparr>encryptionKeyFile := Some key\<rparr>)))"

text \<open>\<open>_encrypt\<close>: the OS store when it is in use and works, else AES-256-GCM.\<close>

definition encrypt :: "platform \<Rightarrow> env \<Rightarrow> cm_state \<Rightarrow> utf16 \<Rightarrow> (exn + bytes) \<times> cm_state" where
  "encrypt P E st plaintext =
     (case (if useOSStorage st then safeStorage_encryptString P plaintext else None) of
        Some blob \<Rightarrow> (Inr blob, st)
      | None \<Rightarrow>
          (case getEncryptionKey E st of
             (Inl e, st') \<Rightarrow> (Inl e, st')
           | (Inr key, st') \<Rightarrow>
               (let iv = randomBytes (rand_iv E) 16 in
                case aes_256_gcm_encrypt P key iv (utf8_encode plaintext) of
                  None \<Rightarrow> (Inl CryptoError, st')
                | Some (ct, authTag) \<Rightarrow>
                    (let encrypted = to_hex ct in
                     (Inr (iv @ authTag @ from_hex encrypted), st')))))"

text \<open>
  \<open>_decrypt\<close>: the OS store first when it is in use; the fallback runs inside
  \<open>try\<close>, and every exception there makes the result \<open>null\<close> (\<open>None\<close>).
\<close>

definition decrypt :: "platform \<Rightarrow> env \<Rightarrow> cm_state \<Rightarrow> bytes \<Rightarrow> utf16 option \<times> cm_state" where
  "decrypt P E st encryptedData =
     (case (if useOSStorage st then safeStorage_decryptString P encryptedData else None) of
        Some s \<Rightarrow> (Some s, st)
      | None \<Rightarrow>
          (case getEncryptionKey E st of
             (Inl e, st') \<Rightarrow> (None, st')
           | (Inr key, st') \<Rightarrow>
               (let iv = slice 0 16 encryptedData;
                    authTag = slice 16 32 encryptedData;
                    encrypted = slice_from 32 encryptedData
                in case aes_256_gcm_decrypt P key iv authTag encrypted of
                     None \<Rightarrow> (None, st')
                   | Some decrypted \<Rightarrow> (Some (utf8_decode decrypted), st'))))"

text \<open>\<open>_saveCredentials\<close>: serialise the whole cache, encrypt, overwrite the file.\<close>

definition saveCredentials :: "platform \<Rightarrow> env \<Rightarrow> cm_state \<Rightarrow> cm_state" where
  "saveCredentials P E st =
     (let plaintext = JSON_stringify_credentials P (credentialsCache st) in
      case encrypt P E st plaintext of
        (Inl e, st') \<Rightarrow> st'
      | (Inr encrypted, st') \<Rightarrow>
          if io_error E then st' else st'\<lparr>credentialsFile := Some encrypted\<rparr>)"

text \<open>\<open>_getOrigin\<close>: \<open>protocol//host\<close>, or \<open>null\<close> when the URL does not parse.\<close>

definition getOrigin :: "platform \<Rightarrow> string \<Rightarrow> string option" where
  "getOrigin P u =
     (case new_URL P u of
        None \<Rightarrow> None
      | Some parsed \<Rightarrow> Some (protocol parsed @ ''//'' @ host parsed))"

text \<open>The test \<open>!origin\<close>: \<open>null\<close> and the empty string are falsy.\<close>

definition falsy :: "'a list option \<Rightarrow> bool" where
  "falsy s = (case s of None \<Rightarrow> True | Some v \<Rightarrow> v = [])"

definition saveCredential ::
  "platform \<Rightarrow> env \<Rightarrow> cm_state \<Rightarrow> string \<Rightarrow> string \<Rightarrow> string \<Rightarrow> bool \<times> cm_state" where
  "saveCredential P E st u user pw =
     (let origin = getOrigin P u in
      if falsy origin then (False, st)
      else
        (let credentials = (case map_of (credentialsCache st) (the origin) of
                              None \<Rightarrow> [] | Some cs \<Rightarrow> cs);
             existingIndex = findIndex (\<lambda>c. username c = user) credentials;
             credentialEntry =
               \<lparr>username = user, password = pw,
                createdAt = (if existingIndex \<ge> 0
                             then createdAt (credentials ! nat existingIndex)
                             else now_created E),
                updatedAt = now_updated E\<rparr>;
             credentials' = (if existingIndex \<ge> 0
                             then credentials[nat existingIndex := credentialEntry]
                             else credentials @ [credentialEntry]);
             st' = st\<lparr>credentialsCache :=
                        AList.update (the origin) credentials' (credentialsCache st)\<rparr>
         in (True, saveCredentials P E st')))"

text \<open>
  \<open>_maskUsername\<close>.  \<open>String.prototype.split\<close> on a one-character separator;
  the destructuring \<open>[name, domain]\<close> takes the first two parts, and a missing second
  part would be \<open>undefined\<close>, printed as such by the template.
\<close>

fun split_on :: "char \<Rightarrow> string \<Rightarrow> string list" where
  "split_on sep [] = [[]]"
| "split_on sep (c # cs) =
     (if c = sep then [] # split_on sep cs
      else (let r = split_on sep cs in (c # hd r) # tl r))"

definition maskUsername :: "string \<Rightarrow> string" where
  "maskUsername user =
     (if CHR ''@'' \<in> set user then
        (let parts = split_on (CHR ''@'') user;
             name = hd parts;
             domain = (case tl parts of [] \<Rightarrow> ''undefined'' | d # _ \<Rightarrow> d)
         in if length name \<le> 2 then user
            else take 2 name @ ''***@'' @ domain)
      else if length user \<le> 3 then user
      else take 3 user @ ''***'')"

text \<open>What \<open>getCredentials\<close> returns for each stored credential.\<close>

record autofill_entry =
  af_username :: string
  af_password :: string
  af_origin :: string
  af_displayName :: string

definition getCredentials :: "platform \<Rightarrow> cm_state \<Rightarrow> string \<Rightarrow> autofill_entry list" where
  "getCredentials P st u =
     (let origin = getOrigin P u in
      if falsy origin then []
      else
        (case map_of (credentialsCache st) (the origin) of
           None \<Rightarrow> []
         | Some credentials \<Rightarrow>
             if length credentials = 0 then []
             else map (\<lambda>c. \<lparr>af_username = username c, af_password = password c,
                             af_origin = the origin,
                             af_displayName = maskUsername (username c)\<rparr>) credentials))"

text \<open>
  \<open>checkExistingCredential\<close>, with the \<open>status\<close> of the object it returns;
  \<open>find\<close> returns the first match.
\<close>

datatype existing_status = Status_none | Status_same | Status_different

definition checkExistingCredential ::
  "platform \<Rightarrow> cm_state \<Rightarrow> string \<Rightarrow> string \<Rightarrow> string \<Rightarrow> existing_status" where
  "checkExistingCredential P st u user pw =
     (let origin = getOrigin P u in
      if falsy origin then Status_none
      else
        (case map_of (credentialsCache st) (the origin) of
           None \<Rightarrow> Status_none
         | Some credentials \<Rightarrow>
             if length credentials = 0 then Status_none
             else
               (case List.find (\<lambda>c. username c = user) credentials of
                  None \<Rightarrow> Status_none
                | Some existing \<Rightarrow>
                    if password existing = pw then Status_same else Status_different)))"

text \<open>The never-save list: \<open>_saveNeverSaveSites\<close> and the three public methods.\<close>

definition saveNeverSaveSites :: "platform \<Rightarrow> env \<Rightarrow> cm_state \<Rightarrow> cm_state" where
  "saveNeverSaveSites P E st =
     (let data = JSON_stringify_sites P (neverSaveSites st) in
      if io_error E then st else st\<lparr>neverSaveFile := Some data\<rparr>)"

definition shouldPromptSave :: "platform \<Rightarrow> cm_state \<Rightarrow> string \<Rightarrow> bool" where
  "shouldPromptSave P st u =
     (let origin = getOrigin P u in
      if falsy origin then False
      else \<not> set_has (neverSaveSites st) (the origin))"

definition neverSaveForSite :: "platform \<Rightarrow> env \<Rightarrow> cm_state \<Rightarrow> string \<Rightarrow> cm_state" where
  "neverSaveForSite P E st u =
     (let origin = getOrigin P u in
      if falsy origin then st
      else saveNeverSaveSites P E
             (st\<lparr>neverSaveSites := set_add (the origin) (neverSaveSites st)\<rparr>))"

definition enableSaveForSite :: "platform \<Rightarrow> env \<Rightarrow> cm_state \<Rightarrow> string \<Rightarrow> cm_state" where
  "enableSaveForSite P E st u =
     (let origin = getOrigin P u in
      if falsy origin then st
      else saveNeverSaveSites P E
             (st\<lparr>neverSaveSites := set_delete (the origin) (neverSaveSites st)\<rparr>))"

text \<open>The other methods that change the cache.\<close>

definition deleteCredential ::
  "platform \<Rightarrow> env \<Rightarrow> cm_state \<Rightarrow> string \<Rightarrow> string \<Rightarrow> bool \<times> cm_state" where
  "deleteCredential P E st u user =
     (let origin = getOrigin P u in
      if falsy origin then (False, st)
      else
        (case map_of (credentialsCache st) (the origin) of
           None \<Rightarrow> (False, st)
         | Some credentials \<Rightarrow>
             (let newCredentials = filter (\<lambda>c. username c \<noteq> user) credentials;
                  st' = (if length newCredentials = 0
                         then st\<lparr>credentialsCache :=
                                   AList.delete (the origin) (credentialsCache st)\<rparr>
                         else st\<lparr>credentialsCache :=
                                   AList.update (the origin) newCredentials (credentialsCache st)\<rparr>)
              in (True, saveCredentials P E st'))))"

definition deleteAllForOrigin :: "platform \<Rightarrow> env \<Rightarrow> cm_state \<Rightarrow> string \<Rightarrow> bool \<times> cm_state" where
  "deleteAllForOrigin P E st u =
     (let origin = getOrigin P u in
      if falsy origin then (False, st)
      else (True, saveCredentials P E
                    (st\<lparr>credentialsCache := AList.delete (the origin) (credentialsCache st)\<rparr>)))"

definition clearAllCredentials :: "platform \<Rightarrow> env \<Rightarrow> cm_state \<Rightarrow> cm_state" where
  "clearAllCredentials P E st = saveCredentials P E (st\<lparr>credentialsCache := []\<rparr>)"

text \<open>
  \<open>updateUsername\<close>: \<open>find\<close> returns the first credential of that name, which is
  then changed in place; the name must not be taken already.
\<close>

definition updateUsername ::
  "platform \<Rightarrow> env \<Rightarrow> cm_state \<Rightarrow> string \<Rightarrow> string \<Rightarrow> string \<Rightarrow> bool \<times> cm_state" where
  "updateUsername P E st u oldUsername newUsername =
     (let origin = getOrigin P u in
      if falsy origin then (False, st)
      else
        (case map_of (credentialsCache st) (the origin) of
           None \<Rightarrow> (False, st)
         | Some credentials \<Rightarrow>
             (let i = findIndex (\<lambda>c. username c = oldUsername) credentials in
              if i < 0 then (False, st)
              else if list_ex (\<lambda>c. username c = newUsername) credentials then (False, st)
              else
                (let credential = (credentials ! nat i)
                                    \<lparr>username := newUsername, updatedAt := now_updated E\<rparr>;
                     st' = st\<lparr>credentialsCache :=
                               AList.update (the origin) (credentials[nat i := credential])
                                 (credentialsCache st)\<rparr>
                 in (True, saveCredentials P E st')))))"

text \<open>
  Loading.  The first component of a result is the exception that reaches the caller, if
  any.  \<open>_loadNeverSaveSites\<close> resets the list when its \<open>try\<close> block throws;
  \<open>_loadCredentials\<close> only logs.
\<close>

definition loadNeverSaveSites :: "platform \<Rightarrow> env \<Rightarrow> cm_state \<Rightarrow> exn option \<times> cm_state" where
  "loadNeverSaveSites P E st =
     (case neverSaveFile st of
        None \<Rightarrow> (None, st)
      | Some data \<Rightarrow>
          if io_error E then (None, st\<lparr>neverSaveSites := new_Set []\<rparr>)
          else
            (case JSON_parse_sites P data of
               None \<Rightarrow> (None, st\<lparr>neverSaveSites := new_Set []\<rparr>)
             | Some sites \<Rightarrow> (None, st\<lparr>neverSaveSites := new_Set sites\<rparr>)))"

text \<open>The \<open>try\<close> block of \<open>_loadCredentials\<close>, with the exception it throws.\<close>

definition loadCredentials_try :: "platform \<Rightarrow> env \<Rightarrow> cm_state \<Rightarrow> exn option \<times> cm_state" where
  "loadCredentials_try P E st =
     (case credentialsFile st of
        None \<Rightarrow> (None, st)
      | Some encryptedData \<Rightarrow>
          if io_error E then (Some IOError, st)
          else
            (case decrypt P E st encryptedData of
               (decrypted, st') \<Rightarrow>
                 if falsy decrypted then (None, st')
                 else
                   (case JSON_parse_credentials P (the decrypted) of
                      None \<Rightarrow> (Some SyntaxError, st')
                    | Some entries \<Rightarrow>
                        (None, st'\<lparr>credentialsCache :=
                                     fold (\<lambda>(origin, creds). AList.update origin creds) entries
                                       (credentialsCache st')\<rparr>))))"

definition loadCredentials :: "platform \<Rightarrow> env \<Rightarrow> cm_state \<Rightarrow> exn option \<times> cm_state" where
  "loadCredentials P E st =
     (case loadCredentials_try P E st of
        (None, st') \<Rightarrow> (None, st')
      | (Some err, st') \<Rightarrow> (None, st'))"

text \<open>Sequencing of statements: an exception skips what follows.\<close>

definition and_then ::
  "exn option \<times> 's \<Rightarrow> ('s \<Rightarrow> exn option \<times> 's) \<Rightarrow> exn option \<times> 's" where
  "and_then r f = (case r of (None, s) \<Rightarrow> f s | (Some e, s) \<Rightarrow> (Some e, s))"

definition probeOSStorage :: "platform \<Rightarrow> cm_state \<Rightarrow> exn option \<times> cm_state" where
  "probeOSStorage P st =
     (case safeStorage_isEncryptionAvailable P of
        Some b \<Rightarrow> (None, st\<lparr>useOSStorage := b\<rparr>)
      | None \<Rightarrow> (None, st\<lparr>useOSStorage := False\<rparr>))"

definition initialize :: "platform \<Rightarrow> env \<Rightarrow> cm_state \<Rightarrow> exn option \<times> cm_state" where
  "initialize P E st =
     and_then (probeOSStorage P st)
       (\<lambda>s. and_then (loadNeverSaveSites P E s) (loadCredentials P E))"

text \<open>The constructor, given the contents of the three files under \<open>userDataPath\<close>.\<close>

definition new_CredentialManager ::
  "platform \<Rightarrow> env \<Rightarrow> bytes option \<Rightarrow> string option \<Rightarrow> bytes option \<Rightarrow> exn option \<times> cm_state" where
  "new_CredentialManager P E credFile neverFile keyFile =
     initialize P E
       \<lparr>useOSStorage = False, credentialsCache = [], neverSaveSites = new_Set [],
        credentialsFile = credFile, neverSaveFile = neverFile, encryptionKeyFile = keyFile\<rparr>"

subsection \<open>The page script and the renderer\<close>

text \<open>
  \<open>String.prototype.trim\<close> on code units below 256: tab, line feed, vertical tab, form
  feed, carriage return, space and no-break space are stripped from both ends.
\<close>

definition is_js_space :: "char \<Rightarrow> bool" where
  "is_js_space c = ((of_char c :: nat) \<in> {9, 10, 11, 12, 13, 32, 160})"

definition trim :: "string \<Rightarrow> string" where
  "trim s = rev (dropWhile is_js_space (rev (dropWhile is_js_space s)))"

text \<open>
  \<open>handleFormSubmit\<close> of the injected script: a field is \<open>None\<close> when the form has
  none; the result is the message logged for the host, if any.
\<close>

record submit_message =
  msg_username :: string
  msg_password :: string
  msg_url :: string
  msg_origin :: string

definition handleFormSubmit ::
  "string option \<Rightarrow> string option \<Rightarrow> string \<Rightarrow> string \<Rightarrow> submit_message option" where
  "handleFormSubmit usernameField passwordField href origin =
     (let user = map_option trim usernameField;
          pw = passwordField
      in if falsy user \<or> falsy pw then None
         else Some \<lparr>msg_username = the user, msg_password = the pw,
                    msg_url = href, msg_origin = origin\<rparr>)"

text \<open>
  \<open>handleCredentialSubmit\<close> of the renderer: the pending credential it stores (and
  sends with \<open>credential-check\<close>), if any.
\<close>

definition handleCredentialSubmit :: "submit_message \<Rightarrow> (string \<times> string \<times> string) option" where
  "handleCredentialSubmit d =
     (if msg_url d = [] \<or> msg_username d = [] \<or> msg_password d = [] then None
      else Some (msg_url d, msg_username d, msg_password d))"


section \<open>AdBlocker\<close>

subsection \<open>String operations and regular expressions\<close>

text \<open>
  \<open>String.prototype.toLowerCase\<close> on code units below 256: \<open>A\<close>--\<open>Z\<close> and the
  upper-case letters of Latin-1 (192 to 222 without the multiplication sign 215) move up
  by 32.
\<close>

definition toLowerCase_char :: "char \<Rightarrow> char" where
  "toLowerCase_char c =
     (let n = (of_char c :: nat) in
      if (65 \<le> n \<and> n \<le> 90) \<or> (192 \<le> n \<and> n \<le> 222 \<and> n \<noteq> 215) then char_of (n + 32)
      else c)"

definition toLowerCase :: "string \<Rightarrow> string" where
  "toLowerCase s = map toLowerCase_char s"

text \<open>\<open>String.prototype.includes\<close>: the needle occurs as a contiguous substring.\<close>

definition startsWith :: "string \<Rightarrow> string \<Rightarrow> bool" where
  "startsWith s needle = (take (length needle) s = needle)"

fun includes_str :: "string \<Rightarrow> string \<Rightarrow> bool" where
  "includes_str [] needle = (needle = [])"
| "includes_str (c # cs) needle = (startsWith (c # cs) needle \<or> includes_str cs needle)"

text \<open>
  The regular expressions of the source use literal characters, character classes, the
  dot, and the postfix operators \<open>?\<close> and \<open>*\<close> on a single atom, with or without the
  flag \<open>i\<close>; none has the flag \<open>g\<close>, so \<open>test\<close> keeps no state.  A class is the
  list of its characters (\<open>[a-z]\<close> written out).  A character of a pattern that lies
  outside the model's alphabet is the empty class, which no character matches.
\<close>

datatype atom = Chr char | Cls "char list" | Any

datatype piece = One atom | Opt atom | Star atom

datatype js_regex = RegExp "piece list" bool

definition lit :: "string \<Rightarrow> piece list" where
  "lit s = map (\<lambda>c. One (Chr c)) s"

text \<open>
  Under the flag \<open>i\<close> both sides are canonicalised; a pattern character below 128 then
  matches exactly the two cases of an ASCII letter.
\<close>

definition ascii_lower :: "char \<Rightarrow> char" where
  "ascii_lower c =
     (let n = (of_char c :: nat) in if 65 \<le> n \<and> n \<le> 90 then char_of (n + 32) else c)"

fun atom_ok :: "bool \<Rightarrow> atom \<Rightarrow> char \<Rightarrow> bool" where
  "atom_ok ic (Chr p) c = (if ic then ascii_lower c = ascii_lower p else c = p)"
| "atom_ok ic (Cls ps) c =
     (if ic then list_ex (\<lambda>p. ascii_lower c = ascii_lower p) ps else list_ex (\<lambda>p. c = p) ps)"
| "atom_ok ic Any c = (c \<noteq> char_of (10 :: nat) \<and> c \<noteq> char_of (13 :: nat))"

fun match_here :: "bool \<Rightarrow> piece list \<Rightarrow> string \<Rightarrow> bool" where
  "match_here ic [] s = True"
| "match_here ic (One a # r) [] = False"
| "match_here ic (One a # r) (c # cs) = (atom_ok ic a c \<and> match_here ic r cs)"
| "match_here ic (Opt a # r) [] = match_here ic r []"
| "match_here ic (Opt a # r) (c # cs) =
     ((atom_ok ic a c \<and> match_here ic r cs) \<or> match_here ic r (c # cs))"
| "match_here ic (Star a # r) [] = match_here ic r []"
| "match_here ic (Star a # r) (c # cs) =
     ((atom_ok ic a c \<and> match_here ic (Star a # r) cs) \<or> match_here ic r (c # cs))"

fun match_from :: "bool \<Rightarrow> piece list \<Rightarrow> string \<Rightarrow> bool" where
  "match_from ic r [] = match_here ic r []"
| "match_from ic r (c # cs) = (match_here ic r (c # cs) \<or> match_from ic r cs)"

text \<open>\<open>RegExp.prototype.test\<close>: the pattern matches somewhere in the string.\<close>

fun test :: "js_regex \<Rightarrow> string \<Rightarrow> bool" where
  "test (RegExp r ic) s = match_from ic r s"

text \<open>\<open>Number.prototype.toString\<close> for a non-negative integer.\<close>

fun toString :: "nat \<Rightarrow> string" where
  "toString n =
     (if n < 10 then [char_of (48 + n)]
      else toString (n div 10) @ [char_of (48 + n mod 10)])"

subsection \<open>The tables\<close>

text \<open>
  \<open>AD_DOMAINS\<close>, \<open>BLOCK_PATTERNS\<close> and the \<open>youtubeAdPatterns\<close> local to
  \<open>isYouTubeRelated\<close>, entry by entry in the order of the source.  \<open>RegExp r True\<close>
  carries the flag \<open>i\<close>.
\<close>

definition AD_DOMAINS :: "string list" where
  "AD_DOMAINS =
     [''doubleclick.net'',
      ''googlesyndication.com'',
      ''googleadservices.com'',
      ''google-analytics.com'',
      ''googletagmanager.com'',
      ''googletagservices.com'',
      ''adservice.google.com'',
      ''pagead2.googlesyndication.com'',
      ''tpc.googlesyndication.com'',
      ''youtubekids.com'',
      ''facebook.com/tr'',
      ''connect.facebook.net/en_US/fbevents'',
      ''pixel.facebook.com'',
      ''an.facebook.com'',
      ''amazon-adsystem.com'',
      ''aax.amazon-adsystem.com'',
      ''fls-na.amazon-adsystem.com'',
      ''bat.bing.com'',
      ''ads.microsoft.com'',
      ''ads-twitter.com'',
      ''analytics.twitter.com'',
      ''static.ads-twitter.com'',
      ''adnxs.com'',
      ''advertising.com'',
      ''adsrvr.org'',
      ''adroll.com'',
      ''criteo.com'',
      ''criteo.net'',
      ''outbrain.com'',
      ''taboola.com'',
      ''mgid.com'',
      ''revcontent.com'',
      ''zergnet.com'',
      ''adcolony.com'',
      ''admob.com'',
      ''applovin.com'',
      ''unity3d.com/webview'',
      ''unityads.unity3d.com'',
      ''mopub.com'',
      ''vungle.com'',
      ''chartboost.com'',
      ''inmobi.com'',
      ''pubmatic.com'',
      ''rubiconproject.com'',
      ''openx.net'',
      ''spotxchange.com'',
      ''smartadserver.com'',
      ''media.net'',
      ''contextweb.com'',
      ''bidswitch.net'',
      ''casalemedia.com'',
      ''lijit.com'',
      ''sovrn.com'',
      ''sharethrough.com'',
      ''triplelift.com'',
      ''indexexchange.com'',
      ''scorecardresearch.com'',
      ''quantserve.com'',
      ''segment.io'',
      ''segment.com'',
      ''mixpanel.com'',
      ''amplitude.com'',
      ''hotjar.com'',
      ''fullstory.com'',
      ''mouseflow.com'',
      ''crazyegg.com'',
      ''clicktale.com'',
      ''optimizely.com'',
      ''omtrdc.net'',
      ''demdex.net'',
      ''bluekai.com'',
      ''krxd.net'',
      ''exelator.com'',
      ''tapad.com'',
      ''rlcdn.com'',
      ''liveramp.com'',
      ''adsymptotic.com'',
      ''newrelic.com'',
      ''nr-data.net'',
      ''propellerads.com'',
      ''popcash.net'',
      ''popads.net'',
      ''exoclick.com'',
      ''juicyads.com'',
      ''trafficjunky.com'',
      ''clickadu.com'',
      ''hilltopads.com'',
      ''imasdk.googleapis.com'',
      ''static.doubleclick.net'',
      ''ad.doubleclick.net'',
      ''pubads.g.doubleclick.net'',
      ''pixel.wp.com'',
      ''stats.wp.com'',
      ''pixel.quantserve.com'']"

definition BLOCK_PATTERNS :: "js_regex list" where
  "BLOCK_PATTERNS =
     [RegExp (lit ''/ads/'') True,
      RegExp (lit ''/ad/'') True,
      RegExp (lit ''/advertisement'') True,
      RegExp (lit ''/advert'') True,
      RegExp (lit ''/banner'' @ [Opt (Cls ''_-'')] @ lit ''ad'') True,
      RegExp (lit ''/pop'' @ [Opt (Cls ''_-'')] @ lit ''under'') True,
      RegExp (lit ''/pop'' @ [Opt (Cls ''_-'')] @ lit ''up'') True,
      RegExp (lit ''.gif?'' @ [Star (Any)] @ lit ''ad'') True,
      RegExp (lit ''/sponsored'') True,
      RegExp (lit ''/tracking'') True,
      RegExp (lit ''/tracker'') True,
      RegExp (lit ''/pixel.'') True,
      RegExp (lit ''/beacon'') True,
      RegExp (lit ''/analytics.js'') True,
      RegExp (lit ''/gtag/js'') True,
      RegExp (lit ''/gtm.js'') True,
      RegExp (lit ''ad'' @ [Opt (Cls ''_-'')] @ lit ''server'') True,
      RegExp (lit ''adserv'') True,
      RegExp (lit ''doubleclick'') True,
      RegExp (lit ''/pagead/'') True,
      RegExp (lit ''/adsbygoogle'') True,
      RegExp (lit ''google_ads'') True,
      RegExp (lit ''prebid'') True,
      RegExp (lit ''/outbrain'') True,
      RegExp (lit ''/taboola'') True,
      RegExp (lit ''/mgid'') True,
      RegExp ([One (Cls ''?&'')] @ lit ''ad_'') True,
      RegExp ([One (Cls ''?&'')] @ lit ''dae_'') True,
      RegExp ([One (Cls ''?&'')] @ [One (Cls [])] @ [One (Cls [])] @ lit '' '') True,
      RegExp (lit ''/api/stats/ads'') True,
      RegExp (lit ''/get_midroll_info'') True,
      RegExp (lit ''/player_ads'') True,
      RegExp (lit ''/ads.js'') True,
      RegExp (lit ''/ad_status'') True,
      RegExp (lit ''/youtubei/v1/ads'') True,
      RegExp (lit ''/v1/postpublish'') True,
      RegExp (lit ''/ptracking'') True,
      RegExp (lit ''/attribution'') True,
      RegExp (lit ''/set_adsense_visiblity'') True,
      RegExp (lit ''/ivs/set'') True,
      RegExp (lit ''/drm_license'') True,
      RegExp (lit ''/videotagsessio'') True,
      RegExp (lit ''/watermark/'' @ [Star (Any)] @ lit ''ad'') True,
      RegExp (lit ''ytad'') False,
      RegExp (lit ''youtubeads'') False,
      RegExp (lit ''video_ad'') False,
      RegExp (lit ''adsegment'') False,
      RegExp (lit ''/ad-stream'') True,
      RegExp (lit ''/preroll'') True,
      RegExp (lit ''/midroll'') True,
      RegExp (lit ''/postroll'') True,
      RegExp (lit ''adfmt'') False,
      RegExp (lit ''adfmtc'') False,
      RegExp (lit ''/htmlad.swf'') True,
      RegExp (lit ''/ad/'' @ [Star (Cls ''abcdefghijklmnopqrstuvwxyz'')] @ lit ''.js'') True,
      RegExp (lit ''/pubads'') True,
      RegExp (lit ''/gpt/pubads'') True,
      RegExp (lit ''/companion_ad'') True,
      RegExp (lit ''/vast'') False,
      RegExp (lit ''/vmap'') False,
      RegExp (lit ''/ima3'') True,
      RegExp (lit ''/imasdk'') True,
      RegExp (lit ''/dai'') False,
      RegExp (lit ''/oembed'' @ [Star (Any)] @ lit ''ad'') True,
      RegExp (lit ''/adbreak'') True,
      RegExp (lit ''/adstart'') True,
      RegExp (lit ''/adtimeshift'') True,
      RegExp (lit ''/adpause'') True,
      RegExp (lit ''/adresume'') True,
      RegExp (lit ''/adclick'') True,
      RegExp (lit ''/adimpression'') True,
      RegExp (lit ''/adview'') False,
      RegExp (lit ''/advol'') False,
      RegExp (lit ''/adver'') False,
      RegExp (lit ''/adframe'') False,
      RegExp (lit ''/adfeed'') False,
      RegExp (lit ''/adlog'') False,
      RegExp (lit ''/adcount'') False,
      RegExp (lit ''/adcountdown'') False,
      RegExp (lit ''/adsystem'') False,
      RegExp (lit ''/adsense'') False,
      RegExp (lit ''/adsinfo'') False,
      RegExp (lit ''/adspeed'') False,
      RegExp (lit ''/adstory'') False,
      RegExp (lit ''/adtest'') False,
      RegExp (lit ''/adtrack'') False,
      RegExp (lit ''/adurl'') False,
      RegExp (lit ''/adverify'') False,
      RegExp (lit ''/adwatch'') False,
      RegExp (lit ''/adzone'') False,
      RegExp (lit ''/adword'') False,
      RegExp (lit ''/adwork'') False,
      RegExp (lit ''/sponsored_search'') False,
      RegExp (lit ''/product_ads'') False,
      RegExp (lit ''/shopping_ads'') False,
      RegExp (lit ''/display_ads'') False,
      RegExp (lit ''/text_ads'') False,
      RegExp (lit ''/link_ads'') False,
      RegExp (lit ''/video_ads'') False,
      RegExp (lit ''/instream_ads'') False,
      RegExp (lit ''/preroll_ads'') False,
      RegExp (lit ''/overlay_ads'') False,
      RegExp (lit ''/banner_ads'') False,
      RegExp (lit ''/sticky_ads'') False,
      RegExp (lit ''/popup_ads'') False,
      RegExp (lit ''/interstitial_ads'') False,
      RegExp (lit ''/native_ads'') False,
      RegExp (lit ''/native_ad'') False,
      RegExp (lit ''/content_ads'') False,
      RegExp (lit ''/contextual_ads'') False,
      RegExp (lit ''/matched_content'') False,
      RegExp (lit ''/custom_ads'') False,
      RegExp (lit ''/house_ads'') False,
      RegExp (lit ''/remnant_ads'') False,
      RegExp (lit ''/backfill_ads'') False,
      RegExp (lit ''/deadnet_ads'') False]"

definition youtubeAdPatterns :: "js_regex list" where
  "youtubeAdPatterns =
     [RegExp ([One (Cls ''?&'')] @ lit ''ad_'') False,
      RegExp ([One (Cls ''?&'')] @ lit ''dae_'') False,
      RegExp ([One (Cls ''?&'')] @ [One (Cls [])] @ [One (Cls [])]) False,
      RegExp (lit ''/api/stats/ads'') False,
      RegExp (lit ''/get_midroll_info'') False,
      RegExp (lit ''/player_ads'') False,
      RegExp (lit ''/ads.js'') False,
      RegExp (lit ''/ad_status'') False,
      RegExp (lit ''/youtubei/v1/ads'') False,
      RegExp (lit ''/v1/postpublish'') False,
      RegExp (lit ''/ptracking'') False,
      RegExp (lit ''/attribution'') False,
      RegExp (lit ''/set_adsense_visiblity'') False,
      RegExp (lit ''/ivs/set'') False,
      RegExp (lit ''/drm_license'') False,
      RegExp (lit ''/videotagsessio'') False,
      RegExp (lit ''/watermark/'' @ [Star (Any)] @ lit ''ad'') False,
      RegExp (lit ''ytad'') False,
      RegExp (lit ''youtubeads'') False,
      RegExp (lit ''video_ad'') False,
      RegExp (lit ''adsegment'') False,
      RegExp (lit ''/ad-stream'') False,
      RegExp (lit ''/preroll'') False,
      RegExp (lit ''/midroll'') False,
      RegExp (lit ''/postroll'') False,
      RegExp (lit ''adfmt'') False,
      RegExp (lit ''adfmtc'') False,
      RegExp (lit ''/htmlad.swf'') False,
      RegExp (lit ''/ad/'' @ [Star (Cls ''abcdefghijklmnopqrstuvwxyz'')] @ lit ''.js'') False,
      RegExp (lit ''/pubads'') False,
      RegExp (lit ''/gpt/pubads'') False,
      RegExp (lit ''/companion_ad'') False,
      RegExp (lit ''/vast'') False,
      RegExp (lit ''/vmap'') False,
      RegExp (lit ''/ima3'') False,
      RegExp (lit ''/imasdk'') False,
      RegExp (lit ''/dai'') False,
      RegExp (lit ''/oembed'' @ [Star (Any)] @ lit ''ad'') False,
      RegExp (lit ''/adbreak'') False,
      RegExp (lit ''/adstart'') False,
      RegExp (lit ''/adtimeshift'') False,
      RegExp (lit ''/adpause'') False,
      RegExp (lit ''/adresume'') False,
      RegExp (lit ''/adclick'') False,
      RegExp (lit ''/adimpression'') False,
      RegExp (lit ''/adview'') False,
      RegExp (lit ''/adsystem'') False,
      RegExp (lit ''/adsense'') False,
      RegExp (lit ''/adsinfo'') False,
      RegExp (lit ''/adspeed'') False,
      RegExp (lit ''/adstory'') False,
      RegExp (lit ''/adtest'') False,
      RegExp (lit ''/adtrack'') False,
      RegExp (lit ''/adurl'') False,
      RegExp (lit ''/adverify'') False,
      RegExp (lit ''/adwatch'') False,
      RegExp (lit ''/adzone'') False,
      RegExp (lit ''/ptracking?'' @ [Star (Any)] @ lit ''video_id'') False,
      RegExp (lit ''/attribution?'') False,
      RegExp (lit ''/get_ad_signals'') False,
      RegExp (lit ''/ad_frag'') False,
      RegExp (lit ''/ads/'' @ [Star (Any)] @ lit ''.js'') False,
      RegExp (lit ''/creative/'' @ [Star (Any)] @ lit ''.js'') False,
      RegExp (lit ''/load_ad'') False,
      RegExp (lit ''/load_ads'') False,
      RegExp (lit ''/show_ad'') False,
      RegExp (lit ''/show_ads'') False,
      RegExp (lit ''/trigger_ad'') False,
      RegExp (lit ''/log_ad'') False,
      RegExp (lit ''/ping_ad'') False,
      RegExp (lit ''/ping_ads'') False,
      RegExp (lit ''/track_ad'') False,
      RegExp (lit ''/track_ads'') False]"
subsection \<open>The class\<close>

record ab_stats =
  totalBlocked :: nat
  sessionBlocked :: nat
  blockedByTab :: "(string \<times> nat) list"

record adblocker =
  enabled :: bool
  stats :: ab_stats
  whitelist :: "string list"

text \<open>
  The item \<open>adBlockerSettings\<close> of \<open>localStorage\<close>, as \<open>saveSettings\<close> writes it
  and \<open>loadSettings\<close> reads it; a field is \<open>None\<close> when the stored object lacks it.
  \<open>localStorage\<close> does not exist in the main process: every access throws there, and
  both methods catch it.
\<close>

record persisted =
  p_enabled :: "bool option"
  p_whitelist :: "string list option"
  p_totalBlocked :: "nat option"

datatype local_storage = Unavailable | Storage "persisted option"

definition loadSettings :: "local_storage \<Rightarrow> adblocker \<Rightarrow> adblocker" where
  "loadSettings ls ab =
     (case ls of
        Unavailable \<Rightarrow> ab
      | Storage None \<Rightarrow> ab
      | Storage (Some settings) \<Rightarrow>
          ab\<lparr>enabled := (p_enabled settings \<noteq> Some False),
             whitelist := new_Set (case p_whitelist settings of None \<Rightarrow> [] | Some w \<Rightarrow> w),
             stats := (stats ab)\<lparr>totalBlocked :=
                         (case p_totalBlocked settings of None \<Rightarrow> 0 | Some n \<Rightarrow> n)\<rparr>\<rparr>)"

definition saveSettings :: "local_storage \<Rightarrow> adblocker \<Rightarrow> local_storage" where
  "saveSettings ls ab =
     (case ls of
        Unavailable \<Rightarrow> Unavailable
      | Storage old \<Rightarrow>
          Storage (Some \<lparr>p_enabled = Some (enabled ab),
                         p_whitelist = Some (whitelist ab),
                         p_totalBlocked = Some (totalBlocked (stats ab))\<rparr>))"

text \<open>The constructor.\<close>

definition new_AdBlocker :: "local_storage \<Rightarrow> adblocker" where
  "new_AdBlocker ls =
     loadSettings ls
       \<lparr>enabled = True,
        stats = \<lparr>totalBlocked = 0, sessionBlocked = 0, blockedByTab = []\<rparr>,
        whitelist = new_Set []\<rparr>"

definition isWhitelisted :: "platform \<Rightarrow> adblocker \<Rightarrow> string \<Rightarrow> bool" where
  "isWhitelisted P ab u =
     (case new_URL P u of
        None \<Rightarrow> False
      | Some parsed \<Rightarrow> set_has (whitelist ab) (hostname parsed))"

definition isYouTubeRelated :: "string \<Rightarrow> string \<Rightarrow> bool" where
  "isYouTubeRelated u pageUrl =
     (let urlLower = toLowerCase u;
          isYouTubeDomain = (includes_str urlLower ''youtube.com'' \<or> includes_str urlLower ''googlevideo.com'')
      in if \<not> isYouTubeDomain then False
         else if list_ex (\<lambda>pattern. test pattern urlLower) youtubeAdPatterns then True
         else if (includes_str urlLower ''/youtubei/v1/player'' \<or> includes_str urlLower ''/api/player'') \<and>
                 (pageUrl \<noteq> [] \<and> includes_str pageUrl ''youtube.com'') \<and>
                 (includes_str urlLower ''ad'' \<or> includes_str urlLower ''adformat'')
              then True
         else False)"

definition shouldBlock :: "platform \<Rightarrow> adblocker \<Rightarrow> string \<Rightarrow> string \<Rightarrow> bool" where
  "shouldBlock P ab u pageUrl =
     (if \<not> enabled ab then False
      else if pageUrl \<noteq> [] \<and> isWhitelisted P ab pageUrl then False
      else
        (let urlLower = toLowerCase u in
         if list_ex (\<lambda>domain. includes_str urlLower domain) AD_DOMAINS then True
         else if list_ex (\<lambda>pattern. test pattern u) BLOCK_PATTERNS then True
         else if isYouTubeRelated u pageUrl then True
         else False))"

definition addToWhitelist :: "local_storage \<Rightarrow> adblocker \<Rightarrow> string \<Rightarrow> adblocker \<times> local_storage" where
  "addToWhitelist ls ab domain =
     (let ab' = ab\<lparr>whitelist := set_add domain (whitelist ab)\<rparr>
      in (ab', saveSettings ls ab'))"

definition removeFromWhitelist ::
  "local_storage \<Rightarrow> adblocker \<Rightarrow> string \<Rightarrow> adblocker \<times> local_storage" where
  "removeFromWhitelist ls ab domain =
     (let ab' = ab\<lparr>whitelist := set_delete domain (whitelist ab)\<rparr>
      in (ab', saveSettings ls ab'))"

text \<open>\<open>toggle\<close>: the value returned, the new object, the new storage.\<close>

definition toggle :: "local_storage \<Rightarrow> adblocker \<Rightarrow> bool \<times> adblocker \<times> local_storage" where
  "toggle ls ab =
     (let ab' = ab\<lparr>enabled := \<not> enabled ab\<rparr>
      in (enabled ab', ab', saveSettings ls ab'))"

text \<open>
  The counters are JavaScript numbers holding non-negative integers, here the integers
  themselves.  \<open>js_incr\<close> is \<open>n + 1\<close> in double arithmetic: exact below \<open>2^53\<close>;
  from there to \<open>2^54\<close> the doubles are the even integers and the sum lies half-way
  between two of them, so it is rounded to the one whose half is even; from \<open>2^54\<close> on
  the sum is rounded back to \<open>n\<close>.
\<close>

definition js_incr :: "nat \<Rightarrow> nat" where
  "js_incr n =
     (if n < 2 ^ 53 then n + 1
      else if n < 2 ^ 54 then (if n div 2 mod 2 = 0 then n else n + 2)
      else n)"

definition recordBlocked :: "local_storage \<Rightarrow> adblocker \<Rightarrow> string \<Rightarrow> adblocker \<times> local_storage" where
  "recordBlocked ls ab tabId =
     (let ab1 = ab\<lparr>stats := (stats ab)\<lparr>sessionBlocked := js_incr (sessionBlocked (stats ab))\<rparr>\<rparr>;
          ab2 = ab1\<lparr>stats := (stats ab1)\<lparr>totalBlocked := js_incr (totalBlocked (stats ab1))\<rparr>\<rparr>;
          currentCount = (case map_of (blockedByTab (stats ab2)) tabId of
                            None \<Rightarrow> 0 | Some n \<Rightarrow> n);
          ab3 = ab2\<lparr>stats := (stats ab2)\<lparr>blockedByTab :=
                         AList.update tabId (js_incr currentCount) (blockedByTab (stats ab2))\<rparr>\<rparr>
      in if sessionBlocked (stats ab3) mod 10 = 0 then (ab3, saveSettings ls ab3)
         else (ab3, ls))"

definition getBlockedCount :: "adblocker \<Rightarrow> string \<Rightarrow> nat" where
  "getBlockedCount ab tabId =
     (case map_of (blockedByTab (stats ab)) tabId of None \<Rightarrow> 0 | Some n \<Rightarrow> n)"

definition resetTabStats :: "adblocker \<Rightarrow> string \<Rightarrow> adblocker" where
  "resetTabStats ab tabId =
     ab\<lparr>stats := (stats ab)\<lparr>blockedByTab := AList.update tabId 0 (blockedByTab (stats ab))\<rparr>\<rparr>"

record stats_view =
  sv_enabled :: bool
  sv_sessionBlocked :: nat
  sv_totalBlocked :: nat
  sv_whitelistCount :: nat

definition getStats :: "adblocker \<Rightarrow> stats_view" where
  "getStats ab =
     \<lparr>sv_enabled = enabled ab, sv_sessionBlocked = sessionBlocked (stats ab),
      sv_totalBlocked = totalBlocked (stats ab), sv_whitelistCount = length (whitelist ab)\<rparr>"

subsection \<open>The request filter\<close>

text \<open>
  The \<open>details\<close> of a request as the \<open>onBeforeRequest\<close> handler reads them; a field
  is \<open>None\<close> when it is \<open>undefined\<close>.
\<close>

record request_details =
  d_url :: string
  d_resourceType :: string
  d_referrer :: "string option"
  d_webContentsId :: "nat option"

record ad_blocked_event =
  ev_url :: string
  ev_type :: string
  ev_webContentsId :: "string option"
  ev_stats :: stats_view

text \<open>
  What one call of the handler does: the \<open>cancel\<close> flag passed to the callback, the
  \<open>AdBlocker\<close> and the storage afterwards, and the \<open>ad-blocked\<close> message sent to the
  main window when there is one.
\<close>

record handled =
  cancel :: bool
  blocker :: adblocker
  storage :: local_storage
  sent :: "ad_blocked_event option"

definition or_empty :: "string option \<Rightarrow> string" where
  "or_empty s = (case s of None \<Rightarrow> [] | Some v \<Rightarrow> if v = [] then [] else v)"

definition onBeforeRequest ::
  "platform \<Rightarrow> bool \<Rightarrow> local_storage \<Rightarrow> adblocker \<Rightarrow> request_details \<Rightarrow> handled" where
  "onBeforeRequest P mainWindow ls ab details =
     (if \<not> enabled ab then \<lparr>cancel = False, blocker = ab, storage = ls, sent = None\<rparr>
      else
        (let u = d_url details; resourceType = d_resourceType details in
         if resourceType = ''mainFrame''
         then \<lparr>cancel = False, blocker = ab, storage = ls, sent = None\<rparr>
         else if shouldBlock P ab u (or_empty (d_referrer details)) then
           (let tabId = (case map_option toString (d_webContentsId details) of
                           None \<Rightarrow> ''unknown'' | Some t \<Rightarrow> t);
                (ab', ls') = recordBlocked ls ab tabId
            in \<lparr>cancel = True, blocker = ab', storage = ls',
                sent = (if mainWindow
                        then Some \<lparr>ev_url = u, ev_type = resourceType,
                                   ev_webContentsId = map_option toString (d_webContentsId details),
                                   ev_stats = getStats ab'\<rparr>
                        else None)\<rparr>)
         else \<lparr>cancel = False, blocker = ab, storage = ls, sent = None\<rparr>))"


section \<open>A concrete platform for evaluation\<close>

text \<open>
  The theorems below hold for every platform.  To run the model on concrete inputs, the
  parameters are instantiated with small stand-ins: a parser for the plain
  \<open>http(s)://host[:port]/...\<close> URLs used in the examples (lower case, no user
  info), a toy authenticated cipher that demands a 32-byte key and checks its 16-byte
  tag, no OS secret store, and JSON at the empty store.
\<close>

definition authority_of :: "string \<Rightarrow> string" where
  "authority_of rest = takeWhile (\<lambda>c. c \<noteq> CHR ''/'' \<and> c \<noteq> CHR ''?'' \<and> c \<noteq> CHR ''#'') rest"

definition mk_url :: "string \<Rightarrow> string \<Rightarrow> url option" where
  "mk_url proto rest =
     (let authority = authority_of rest in
      if authority = [] then None
      else Some \<lparr>protocol = proto, host = authority,
                 hostname = takeWhile (\<lambda>c. c \<noteq> CHR '':'') authority\<rparr>)"

definition parse_http_url :: "string \<Rightarrow> url option" where
  "parse_http_url s =
     (if take 8 s = ''https://'' then mk_url ''https:'' (drop 8 s)
      else if take 7 s = ''http://'' then mk_url ''http:'' (drop 7 s)
      else None)"

definition toy_tag :: "bytes \<Rightarrow> bytes \<Rightarrow> bytes \<Rightarrow> bytes" where
  "toy_tag key iv ct = replicate 16 (sum_list key + sum_list iv + sum_list ct)"

definition toy_encrypt :: "bytes \<Rightarrow> bytes \<Rightarrow> bytes \<Rightarrow> (bytes \<times> bytes) option" where
  "toy_encrypt key iv pt =
     (if length key \<noteq> 32 then None
      else (let ct = map (\<lambda>b. b + 1) pt in Some (ct, toy_tag key iv ct)))"

definition toy_decrypt :: "bytes \<Rightarrow> bytes \<Rightarrow> bytes \<Rightarrow> bytes \<Rightarrow> bytes option" where
  "toy_decrypt key iv authTag ct =
     (if length key \<noteq> 32 \<or> authTag \<noteq> toy_tag key iv ct then None
      else Some (map (\<lambda>b. b - 1) ct))"

definition demo_platform :: platform where
  "demo_platform =
     \<lparr>URL_parse = parse_http_url,
      safeStorage_isEncryptionAvailable = Some False,
      safeStorage_encryptString = (\<lambda>s. None),
      safeStorage_decryptString = (\<lambda>b. None),
      aes_256_gcm_encrypt = toy_encrypt,
      aes_256_gcm_decrypt = toy_decrypt,
      JSON_stringify_credentials =
        (\<lambda>al. if al = [] then code_units ''{}'' else code_units ''{...}''),
      JSON_parse_credentials = (\<lambda>s. if s = code_units ''{}'' then Some [] else None),
      JSON_stringify_sites = (\<lambda>xs. if xs = [] then ''[]'' else ''[...]''),
      JSON_parse_sites = (\<lambda>s. if s = ''[]'' then Some [] else None)\<rparr>"

definition demo_env :: "int \<Rightarrow> env" where
  "demo_env t =
     \<lparr>now_created = t, now_updated = t + 1,
      rand_key = (\<lambda>i. word_of_nat (7 * i + 3)), rand_iv = (\<lambda>i. word_of_nat (5 * i + 1)),
      io_error = False\<rparr>"

definition empty_store :: cm_state where
  "empty_store =
     \<lparr>useOSStorage = False, credentialsCache = [], neverSaveSites = [],
      credentialsFile = None, neverSaveFile = None, encryptionKeyFile = None\<rparr>"


section \<open>Observations used in the statements\<close>

text \<open>The records stored for one origin and one username, in order.\<close>

definition stored_for :: "cm_state \<Rightarrow> string \<Rightarrow> string \<Rightarrow> credential list" where
  "stored_for st origin user =
     filter (\<lambda>c. username c = user)
       (case map_of (credentialsCache st) origin of None \<Rightarrow> [] | Some cs \<Rightarrow> cs)"

text \<open>
  The invariant of the data model: within one origin no two records share a username.
\<close>

definition unique_usernames :: "cm_state \<Rightarrow> bool" where
  "unique_usernames st = list_all (\<lambda>(origin, cs). distinct (map username cs)) (credentialsCache st)"

text \<open>
  The calls that change a \<open>CredentialManager\<close>, to speak about what happens between two
  of them.  Each call comes with what the environment returns during it.
\<close>

datatype cm_op =
    Op_saveCredential string string string
  | Op_deleteCredential string string
  | Op_deleteAllForOrigin string
  | Op_updateUsername string string string
  | Op_clearAllCredentials
  | Op_neverSaveForSite string
  | Op_enableSaveForSite string

fun apply_op :: "platform \<Rightarrow> cm_state \<Rightarrow> env \<times> cm_op \<Rightarrow> cm_state" where
  "apply_op P st (E, Op_saveCredential u user pw) = snd (saveCredential P E st u user pw)"
| "apply_op P st (E, Op_deleteCredential u user) = snd (deleteCredential P E st u user)"
| "apply_op P st (E, Op_deleteAllForOrigin u) = snd (deleteAllForOrigin P E st u)"
| "apply_op P st (E, Op_updateUsername u old new) = snd (updateUsername P E st u old new)"
| "apply_op P st (E, Op_clearAllCredentials) = clearAllCredentials P E st"
| "apply_op P st (E, Op_neverSaveForSite u) = neverSaveForSite P E st u"
| "apply_op P st (E, Op_enableSaveForSite u) = enableSaveForSite P E st u"

definition run_ops :: "platform \<Rightarrow> cm_state \<Rightarrow> (env \<times> cm_op) list \<Rightarrow> cm_state" where
  "run_ops P st ops = foldl (apply_op P) st ops"

text \<open>Whether a call is \<open>enableSaveForSite\<close> for a URL of the given origin.\<close>

fun enables :: "platform \<Rightarrow> string \<Rightarrow> env \<times> cm_op \<Rightarrow> bool" where
  "enables P origin (E, Op_enableSaveForSite u) = (getOrigin P u = Some origin)"
| "enables P origin (E, _) = False"

text \<open>
  What the program relies on from the platform's cipher: AES-256-GCM accepts every 32-byte
  key with a 16-byte nonce, returns a 16-byte tag, and decrypts what it encrypted under
  the same key, nonce and tag.
\<close>

definition aead_contract :: "platform \<Rightarrow> bool" where
  "aead_contract P =
     (\<forall>key iv pt. length key = 32 \<and> length iv = 16 \<longrightarrow>
        (\<exists>ct tag. aes_256_gcm_encrypt P key iv pt = Some (ct, tag) \<and> length tag = 16 \<and>
                  aes_256_gcm_decrypt P key iv tag ct = Some pt))"

text \<open>
  Well-formed UTF-16: every high surrogate is followed by a low surrogate, and no low
  surrogate stands without a high one before it.
\<close>

fun well_formed_units :: "nat list \<Rightarrow> bool" where
  "well_formed_units [] = True"
| "well_formed_units (u # us) =
     (if is_high u then (case us of [] \<Rightarrow> False | v # vs \<Rightarrow> is_low v \<and> well_formed_units vs)
      else \<not> is_low u \<and> well_formed_units us)"

definition well_formed :: "utf16 \<Rightarrow> bool" where
  "well_formed s = well_formed_units (map unat s)"

text \<open>The key file is absent or holds a 256-bit key.\<close>

definition key_file_ok :: "cm_state \<Rightarrow> bool" where
  "key_file_ok st = (case encryptionKeyFile st of None \<Rightarrow> True | Some k \<Rightarrow> length k = 32)"

text \<open>The state a fresh \<open>CredentialManager\<close> starts \<open>_initialize\<close> in.\<close>

definition fresh_manager :: "bytes option \<Rightarrow> string option \<Rightarrow> bytes option \<Rightarrow> cm_state" where
  "fresh_manager credFile neverFile keyFile =
     \<lparr>useOSStorage = False, credentialsCache = [], neverSaveSites = new_Set [],
      credentialsFile = credFile, neverSaveFile = neverFile, encryptionKeyFile = keyFile\<rparr>"

text \<open>The state in which \<open>_initialize\<close> calls \<open>_loadCredentials\<close>.\<close>

definition before_load :: "platform \<Rightarrow> env \<Rightarrow> cm_state \<Rightarrow> cm_state" where
  "before_load P E st = snd (loadNeverSaveSites P E (snd (probeOSStorage P st)))"

text \<open>What \<open>saveSettings\<close> writes for an \<open>AdBlocker\<close>.\<close>

definition snapshot :: "adblocker \<Rightarrow> persisted" where
  "snapshot ab =
     \<lparr>p_enabled = Some (enabled ab), p_whitelist = Some (whitelist ab),
      p_totalBlocked = Some (totalBlocked (stats ab))\<rparr>"

text \<open>The three checks of \<open>shouldBlock\<close> that do not look at the whitelist.\<close>

definition matches_rules :: "string \<Rightarrow> string \<Rightarrow> bool" where
  "matches_rules u pageUrl =
     (list_ex (\<lambda>domain. includes_str (toLowerCase u) domain) AD_DOMAINS \<or>
      list_ex (\<lambda>pattern. test pattern u) BLOCK_PATTERNS \<or>
      isYouTubeRelated u pageUrl)"

text \<open>An \<open>AdBlocker\<close> for the examples: enabled, with one whitelisted hostname.\<close>

definition demo_blocker :: adblocker where
  "demo_blocker =
     \<lparr>enabled = True,
      stats = \<lparr>totalBlocked = 0, sessionBlocked = 0, blockedByTab = []\<rparr>,
      whitelist = [''news.example'']\<rparr>"


section \<open>Properties of the credential store\<close>

lemma getOrigin_nonempty: "getOrigin P u = Some origin \<Longrightarrow> origin \<noteq> []"
  by (auto simp: getOrigin_def split: option.splits)

lemma falsy_getOrigin: "falsy (getOrigin P u) \<longleftrightarrow> getOrigin P u = None"
  by (cases "getOrigin P u") (auto simp: falsy_def dest: getOrigin_nonempty)

lemma findIndex_bounds: "findIndex p xs < int (length xs) \<and> -1 \<le> findIndex p xs"
  by (induction xs) (auto simp: Let_def)

lemma findIndex_neg_iff: "findIndex p xs < 0 \<longleftrightarrow> (\<forall>x\<in>set xs. \<not> p x)"
  by (induction xs) (auto simp: Let_def)

lemma findIndex_sat: "0 \<le> findIndex p xs \<Longrightarrow> p (xs ! nat (findIndex p xs))"
proof (induction xs)
  case Nil
  then show ?case by simp
next
  case (Cons x xs)
  show ?case
  proof (cases "p x")
    case True
    then show ?thesis by simp
  next
    case False
    with Cons.prems have nn: "0 \<le> findIndex p xs"
      by (auto simp: Let_def split: if_splits)
    then have "nat (findIndex p xs + 1) = Suc (nat (findIndex p xs))" by simp
    with False nn Cons.IH show ?thesis by (simp add: Let_def)
  qed
qed

lemma getEncryptionKey_frame:
  "\<exists>kf. snd (getEncryptionKey E st) = st\<lparr>encryptionKeyFile := kf\<rparr>"
proof (cases "encryptionKeyFile st")
  case None
  show ?thesis
  proof (cases "io_error E")
    case True
    with None have "snd (getEncryptionKey E st) = st\<lparr>encryptionKeyFile := None\<rparr>"
      by (simp add: getEncryptionKey_def Let_def)
    then show ?thesis ..
  next
    case False
    with None show ?thesis by (auto simp: getEncryptionKey_def Let_def)
  qed
next
  case (Some k)
  then have "snd (getEncryptionKey E st) = st\<lparr>encryptionKeyFile := Some k\<rparr>"
    by (simp add: getEncryptionKey_def)
  then show ?thesis ..
qed

lemma encrypt_frame:
  "\<exists>kf. snd (encrypt P E st x) = st\<lparr>encryptionKeyFile := kf\<rparr>"
proof -
  obtain r s where g: "getEncryptionKey E st = (r, s)" by (cases "getEncryptionKey E st")
  with getEncryptionKey_frame[of E st] obtain kf where s: "s = st\<lparr>encryptionKeyFile := kf\<rparr>"
    by auto
  have same: "st = st\<lparr>encryptionKeyFile := encryptionKeyFile st\<rparr>" by simp
  have "snd (encrypt P E st x) = st \<or> snd (encrypt P E st x) = s"
    using g by (auto simp: encrypt_def Let_def split: option.splits sum.splits prod.splits)
  then show ?thesis using s same by metis
qed

lemma decrypt_frame:
  "\<exists>kf. snd (decrypt P E st b) = st\<lparr>encryptionKeyFile := kf\<rparr>"
proof -
  obtain r s where g: "getEncryptionKey E st = (r, s)" by (cases "getEncryptionKey E st")
  with getEncryptionKey_frame[of E st] obtain kf where s: "s = st\<lparr>encryptionKeyFile := kf\<rparr>"
    by auto
  have same: "st = st\<lparr>encryptionKeyFile := encryptionKeyFile st\<rparr>" by simp
  have "snd (decrypt P E st b) = st \<or> snd (decrypt P E st b) = s"
    using g by (auto simp: decrypt_def Let_def split: option.splits sum.splits prod.splits)
  then show ?thesis using s same by metis
qed

lemma saveCredentials_frame:
  "\<exists>kf cf. saveCredentials P E st = st\<lparr>encryptionKeyFile := kf, credentialsFile := cf\<rparr>"
proof -
  let ?x = "JSON_stringify_credentials P (credentialsCache st)"
  obtain r s where e: "encrypt P E st ?x = (r, s)" by (cases "encrypt P E st ?x")
  with encrypt_frame[of P E st ?x] obtain kf where s: "s = st\<lparr>encryptionKeyFile := kf\<rparr>"
    by auto
  have "saveCredentials P E st = s\<lparr>credentialsFile := credentialsFile s\<rparr> \<or>
        (\<exists>b. saveCredentials P E st = s\<lparr>credentialsFile := Some b\<rparr>)"
    using e by (auto simp: saveCredentials_def Let_def split: sum.splits)
  with s show ?thesis by metis
qed

lemma saveCredentials_cache:
  "credentialsCache (saveCredentials P E st) = credentialsCache st"
  using saveCredentials_frame[of P E st] by auto

lemma saveCredentials_never:
  "neverSaveSites (saveCredentials P E st) = neverSaveSites st"
  using saveCredentials_frame[of P E st] by auto

lemma saveNeverSaveSites_frame:
  "\<exists>nf. saveNeverSaveSites P E st = st\<lparr>neverSaveFile := nf\<rparr>"
proof (cases "io_error E")
  case True
  then have "saveNeverSaveSites P E st = st\<lparr>neverSaveFile := neverSaveFile st\<rparr>"
    by (simp add: saveNeverSaveSites_def)
  then show ?thesis ..
next
  case False
  then show ?thesis by (auto simp: saveNeverSaveSites_def Let_def)
qed


subsection \<open>C1: a saved credential is returned for autofill\<close>

lemma saveCredential_cache:
  assumes "getOrigin P u = Some origin"
  shows "map_of (credentialsCache (snd (saveCredential P E st u user pw))) origin =
         Some (let credentials = (case map_of (credentialsCache st) origin of
                                    None \<Rightarrow> [] | Some cs \<Rightarrow> cs);
                   i = findIndex (\<lambda>c. username c = user) credentials;
                   entry = \<lparr>username = user, password = pw,
                            createdAt = (if i \<ge> 0 then createdAt (credentials ! nat i)
                                         else now_created E),
                            updatedAt = now_updated E\<rparr>
               in if i \<ge> 0 then credentials[nat i := entry] else credentials @ [entry])"
proof -
  have nf: "\<not> falsy (getOrigin P u)" using falsy_getOrigin[of P u] assms by simp
  show ?thesis
    using assms nf
    by (simp add: saveCredential_def Let_def saveCredentials_cache update_conv')
qed

lemma saveCredential_returns_true:
  "getOrigin P u = Some origin \<Longrightarrow> fst (saveCredential P E st u user pw)"
  using falsy_getOrigin[of P u] by (simp add: saveCredential_def Let_def)

lemma entry_in_updated_list:
  "entry \<in> set (if findIndex p xs \<ge> 0 then xs[nat (findIndex p xs) := entry] else xs @ [entry])"
proof (cases "findIndex p xs \<ge> 0")
  case True
  with findIndex_bounds[of p xs] have "nat (findIndex p xs) < length xs" by simp
  with True show ?thesis by (simp add: set_update_memI)
next
  case False
  then show ?thesis by simp
qed

text \<open>
  C1.  For every URL whose origin parses and every username and secret,
  \<open>saveCredential\<close> succeeds and \<open>getCredentials\<close> for the same URL then returns a
  sequence that contains a record with that username and that secret.
\<close>

theorem save_then_getCredentials:
  assumes "getOrigin P u = Some origin"
  shows "fst (saveCredential P E st u user pw) \<and>
         (\<exists>e \<in> set (getCredentials P (snd (saveCredential P E st u user pw)) u).
            af_username e = user \<and> af_password e = pw)"
proof -
  let ?st' = "snd (saveCredential P E st u user pw)"
  let ?cs = "case map_of (credentialsCache st) origin of None \<Rightarrow> [] | Some cs \<Rightarrow> cs"
  let ?i = "findIndex (\<lambda>c. username c = user) ?cs"
  let ?entry = "\<lparr>username = user, password = pw,
                  createdAt = (if ?i \<ge> 0 then createdAt (?cs ! nat ?i) else now_created E),
                  updatedAt = now_updated E\<rparr>"
  let ?new = "if ?i \<ge> 0 then ?cs[nat ?i := ?entry] else ?cs @ [?entry]"
  have stored: "map_of (credentialsCache ?st') origin = Some ?new"
    using saveCredential_cache[OF assms, of E st user pw] by (simp add: Let_def)
  have mem: "?entry \<in> set ?new"
    by (rule entry_in_updated_list)
  then have ne: "length ?new \<noteq> 0" by auto
  have nf: "\<not> falsy (getOrigin P u)" using falsy_getOrigin[of P u] assms by simp
  have "getCredentials P ?st' u =
          map (\<lambda>c. \<lparr>af_username = username c, af_password = password c, af_origin = origin,
                     af_displayName = maskUsername (username c)\<rparr>) ?new"
    using assms nf stored ne by (simp add: getCredentials_def Let_def)
  moreover from mem have
    "\<lparr>af_username = user, af_password = pw, af_origin = origin,
      af_displayName = maskUsername user\<rparr>
     \<in> (\<lambda>c. \<lparr>af_username = username c, af_password = password c, af_origin = origin,
                af_displayName = maskUsername (username c)\<rparr>) ` set ?new"
    by (rule rev_image_eqI) simp
  ultimately show ?thesis
    using saveCredential_returns_true[OF assms] by (auto intro!: bexI)
qed

lemma demo_origin:
  "getOrigin demo_platform ''https://example.com/login'' = Some ''https://example.com''"
  by (simp add: getOrigin_def new_URL_def demo_platform_def parse_http_url_def mk_url_def
      authority_of_def Let_def)

theorem save_then_getCredentials_witness:
  "getOrigin demo_platform ''https://example.com/login'' = Some ''https://example.com'' \<and>
   fst (saveCredential demo_platform (demo_env 1000) empty_store
          ''https://example.com/login'' ''alice'' ''p1'') \<and>
   (\<exists>e \<in> set (getCredentials demo_platform
                  (snd (saveCredential demo_platform (demo_env 1000) empty_store
                          ''https://example.com/login'' ''alice'' ''p1''))
                  ''https://example.com/login'').
      af_username e = ''alice'' \<and> af_password e = ''p1'')"
  using save_then_getCredentials[OF demo_origin, of "demo_env 1000" empty_store "''alice''" "''p1''"]
    demo_origin by simp


subsection \<open>C2: one record per origin and username; overwrite keeps \<open>createdAt\<close>\<close>

lemma findIndex_Cons_other:
  "\<not> p x \<Longrightarrow> 0 \<le> findIndex p (x # xs) \<longleftrightarrow> 0 \<le> findIndex p xs"
  by (auto simp: Let_def)

lemma upsert_Cons_other:
  assumes "\<not> p x"
  shows "(if 0 \<le> findIndex p (x # xs) then (x # xs)[nat (findIndex p (x # xs)) := e]
          else (x # xs) @ [e]) =
         x # (if 0 \<le> findIndex p xs then xs[nat (findIndex p xs) := e] else xs @ [e])"
proof (cases "0 \<le> findIndex p xs")
  case True
  then have "nat (findIndex p xs + 1) = Suc (nat (findIndex p xs))" by simp
  with True assms show ?thesis by (simp add: Let_def)
next
  case False
  with assms show ?thesis by (simp add: Let_def)
qed

lemma findIndex_first:
  "(if 0 \<le> findIndex p xs then f (xs ! nat (findIndex p xs)) else d) =
   (case filter p xs of [] \<Rightarrow> d | c # _ \<Rightarrow> f c)"
proof (induction xs)
  case Nil
  show ?case by simp
next
  case (Cons x xs)
  show ?case
  proof (cases "p x")
    case True
    then show ?thesis by simp
  next
    case False
    show ?thesis
    proof (cases "0 \<le> findIndex p xs")
      case True
      then have "nat (findIndex p xs + 1) = Suc (nat (findIndex p xs))" by simp
      with True False Cons.IH show ?thesis by (simp add: Let_def)
    next
      case nf: False
      with False Cons.IH show ?thesis by (simp add: Let_def)
    qed
  qed
qed

lemma upsert_filter:
  assumes "distinct (map username xs)" and "username e = user"
  shows "filter (\<lambda>c. username c = user)
           (if 0 \<le> findIndex (\<lambda>c. username c = user) xs
            then xs[nat (findIndex (\<lambda>c. username c = user) xs) := e] else xs @ [e]) = [e]"
  using assms(1)
proof (induction xs)
  case Nil
  with assms(2) show ?case by simp
next
  case (Cons x xs)
  show ?case
  proof (cases "username x = user")
    case True
    from Cons.prems have "username x \<notin> username ` set xs" by simp
    with True have "\<forall>c\<in>set xs. username c \<noteq> user" by (metis imageI)
    then have "filter (\<lambda>c. username c = user) xs = []" by (simp add: filter_empty_conv)
    with True assms(2) show ?thesis by simp
  next
    case False
    from Cons.prems have "distinct (map username xs)" by simp
    from Cons.IH[OF this] False show ?thesis
      unfolding upsert_Cons_other[of "\<lambda>c. username c = user" x xs e, OF False]
      by simp
  qed
qed

lemma upsert_distinct:
  assumes "distinct (map username xs)" and "username e = user"
  shows "distinct (map username
           (if 0 \<le> findIndex (\<lambda>c. username c = user) xs
            then xs[nat (findIndex (\<lambda>c. username c = user) xs) := e] else xs @ [e]))"
  using assms(1)
proof (induction xs)
  case Nil
  show ?case by simp
next
  case (Cons x xs)
  show ?case
  proof (cases "username x = user")
    case True
    with Cons.prems assms(2) show ?thesis by simp
  next
    case False
    let ?r = "if 0 \<le> findIndex (\<lambda>c. username c = user) xs
              then xs[nat (findIndex (\<lambda>c. username c = user) xs) := e] else xs @ [e]"
    from Cons.prems have d: "distinct (map username xs)" and nx: "username x \<notin> username ` set xs"
      by auto
    have "set ?r \<subseteq> insert e (set xs)"
      by (auto dest: set_update_subset_insert[THEN subsetD])
    with nx False assms(2) have "username x \<notin> username ` set ?r" by auto
    with Cons.IH[OF d] show ?thesis
      unfolding upsert_Cons_other[of "\<lambda>c. username c = user" x xs e, OF False]
      by simp
  qed
qed

lemma stored_for_saveCredential:
  assumes "getOrigin P u = Some origin"
      and "distinct (map username
             (case map_of (credentialsCache st) origin of None \<Rightarrow> [] | Some cs \<Rightarrow> cs))"
  shows "stored_for (snd (saveCredential P E st u user pw)) origin user =
           [\<lparr>username = user, password = pw,
             createdAt = (case stored_for st origin user of
                            [] \<Rightarrow> now_created E | c # _ \<Rightarrow> createdAt c),
             updatedAt = now_updated E\<rparr>]"
    and "distinct (map username
           (case map_of (credentialsCache (snd (saveCredential P E st u user pw))) origin of
              None \<Rightarrow> [] | Some cs \<Rightarrow> cs))"
proof -
  let ?cs = "case map_of (credentialsCache st) origin of None \<Rightarrow> [] | Some cs \<Rightarrow> cs"
  let ?p = "\<lambda>c. username c = user"
  let ?i = "findIndex ?p ?cs"
  let ?entry = "\<lparr>username = user, password = pw,
                  createdAt = (if ?i \<ge> 0 then createdAt (?cs ! nat ?i) else now_created E),
                  updatedAt = now_updated E\<rparr>"
  let ?new = "if ?i \<ge> 0 then ?cs[nat ?i := ?entry] else ?cs @ [?entry]"
  have stored: "map_of (credentialsCache (snd (saveCredential P E st u user pw))) origin = Some ?new"
    using saveCredential_cache[OF assms(1), of E st user pw] by (simp add: Let_def)
  have created: "(if ?i \<ge> 0 then createdAt (?cs ! nat ?i) else now_created E) =
                 (case filter ?p ?cs of [] \<Rightarrow> now_created E | c # _ \<Rightarrow> createdAt c)"
    by (rule findIndex_first)
  have "filter ?p ?new = [?entry]"
    by (rule upsert_filter[OF assms(2)]) simp
  with stored created
  show "stored_for (snd (saveCredential P E st u user pw)) origin user =
           [\<lparr>username = user, password = pw,
             createdAt = (case stored_for st origin user of
                            [] \<Rightarrow> now_created E | c # _ \<Rightarrow> createdAt c),
             updatedAt = now_updated E\<rparr>]"
    by (simp add: stored_for_def)
  have "distinct (map username ?new)"
    by (rule upsert_distinct[OF assms(2)]) simp
  with stored
  show "distinct (map username
           (case map_of (credentialsCache (snd (saveCredential P E st u user pw))) origin of
              None \<Rightarrow> [] | Some cs \<Rightarrow> cs))"
    by simp
qed

lemma unique_usernames_lookup:
  assumes "unique_usernames st"
  shows "distinct (map username
           (case map_of (credentialsCache st) origin of None \<Rightarrow> [] | Some cs \<Rightarrow> cs))"
proof (cases "map_of (credentialsCache st) origin")
  case None
  then show ?thesis by simp
next
  case (Some cs)
  then have "(origin, cs) \<in> set (credentialsCache st)" by (rule map_of_SomeD)
  with assms have "distinct (map username cs)"
    by (auto simp: unique_usernames_def list_all_iff)
  with Some show ?thesis by simp
qed

lemma set_alist_update:
  "set (AList.update k v al) \<subseteq> insert (k, v) (set al)"
  by (induction al) auto

lemma unique_usernames_update:
  assumes "unique_usernames st" and "distinct (map username cs)"
  shows "unique_usernames (st\<lparr>credentialsCache := AList.update origin cs (credentialsCache st)\<rparr>)"
  using assms set_alist_update[of origin cs "credentialsCache st"]
  by (auto simp: unique_usernames_def list_all_iff)

lemma unique_usernames_saveCredentials:
  "unique_usernames (saveCredentials P E st) = unique_usernames st"
  by (simp add: unique_usernames_def saveCredentials_cache)

lemma unique_usernames_saveCredential:
  assumes "unique_usernames st"
  shows "unique_usernames (snd (saveCredential P E st u user pw))"
proof (cases "getOrigin P u")
  case None
  then have "falsy (getOrigin P u)" by (simp add: falsy_def)
  with assms show ?thesis by (simp add: saveCredential_def)
next
  case (Some origin)
  have nf: "\<not> falsy (getOrigin P u)" using falsy_getOrigin[of P u] Some by simp
  let ?cs = "case map_of (credentialsCache st) origin of None \<Rightarrow> [] | Some cs \<Rightarrow> cs"
  let ?p = "\<lambda>c. username c = user"
  let ?entry = "\<lparr>username = user, password = pw,
                  createdAt = (if findIndex ?p ?cs \<ge> 0 then createdAt (?cs ! nat (findIndex ?p ?cs))
                               else now_created E),
                  updatedAt = now_updated E\<rparr>"
  have "distinct (map username
          (if 0 \<le> findIndex ?p ?cs then ?cs[nat (findIndex ?p ?cs) := ?entry] else ?cs @ [?entry]))"
    by (rule upsert_distinct[OF unique_usernames_lookup[OF assms]]) simp
  from unique_usernames_update[OF assms this, of origin] Some nf show ?thesis
    by (simp add: saveCredential_def Let_def unique_usernames_saveCredentials)
qed

lemma unique_usernames_cache_eq:
  "credentialsCache st' = credentialsCache st \<Longrightarrow> unique_usernames st' = unique_usernames st"
  by (simp add: unique_usernames_def)

lemma unique_usernames_delete:
  assumes "unique_usernames st"
  shows "unique_usernames (st\<lparr>credentialsCache := AList.delete origin (credentialsCache st)\<rparr>)"
  using assms by (auto simp: unique_usernames_def list_all_iff AList.delete_eq)

lemma unique_usernames_deleteCredential:
  assumes "unique_usernames st"
  shows "unique_usernames (snd (deleteCredential P E st u user))"
proof (cases "falsy (getOrigin P u)")
  case True
  with assms show ?thesis by (simp add: deleteCredential_def)
next
  case False
  show ?thesis
  proof (cases "map_of (credentialsCache st) (the (getOrigin P u))")
    case None
    with False assms show ?thesis by (simp add: deleteCredential_def Let_def)
  next
    case (Some cs)
    from unique_usernames_lookup[OF assms, of "the (getOrigin P u)"] Some
    have "distinct (map username cs)" by simp
    then have d: "distinct (map username (filter (\<lambda>c. username c \<noteq> user) cs))"
      by (rule distinct_map_filter)
    from False Some unique_usernames_delete[OF assms, of "the (getOrigin P u)"]
      unique_usernames_update[OF assms d, of "the (getOrigin P u)"]
    show ?thesis
      by (simp add: deleteCredential_def Let_def unique_usernames_saveCredentials)
  qed
qed

lemma unique_usernames_updateUsername:
  assumes "unique_usernames st"
  shows "unique_usernames (snd (updateUsername P E st u old new))"
proof (cases "falsy (getOrigin P u)")
  case True
  with assms show ?thesis by (simp add: updateUsername_def)
next
  case False
  show ?thesis
  proof (cases "map_of (credentialsCache st) (the (getOrigin P u))")
    case None
    with False assms show ?thesis by (simp add: updateUsername_def Let_def)
  next
    case (Some cs)
    let ?i = "findIndex (\<lambda>c. username c = old) cs"
    let ?c = "(cs ! nat ?i)\<lparr>username := new, updatedAt := now_updated E\<rparr>"
    show ?thesis
    proof (cases "?i < 0 \<or> list_ex (\<lambda>c. username c = new) cs")
      case True
      with False Some assms show ?thesis by (auto simp: updateUsername_def Let_def)
    next
      case ok: False
      from unique_usernames_lookup[OF assms, of "the (getOrigin P u)"] Some
      have dist: "distinct (map username cs)" by simp
      from ok have "new \<notin> set (map username cs)" by (auto simp: list_ex_iff)
      with dist have "distinct ((map username cs)[nat ?i := new])"
        by (simp add: distinct_list_update)
      then have d: "distinct (map username (cs[nat ?i := ?c]))"
        by (simp add: map_update)
      from ok False Some unique_usernames_update[OF assms d, of "the (getOrigin P u)"]
      show ?thesis
        by (simp add: updateUsername_def Let_def unique_usernames_saveCredentials)
    qed
  qed
qed

lemma unique_usernames_apply_op:
  assumes "unique_usernames st"
  shows "unique_usernames (apply_op P st eop)"
proof (cases eop)
  case (Pair E op)
  show ?thesis
  proof (cases op)
    case (Op_saveCredential u user pw)
    with Pair assms show ?thesis by (simp add: unique_usernames_saveCredential)
  next
    case (Op_deleteCredential u user)
    with Pair assms show ?thesis by (simp add: unique_usernames_deleteCredential)
  next
    case (Op_deleteAllForOrigin u)
    with Pair assms unique_usernames_delete[OF assms, of "the (getOrigin P u)"] show ?thesis
      by (simp add: deleteAllForOrigin_def Let_def unique_usernames_saveCredentials)
  next
    case (Op_updateUsername u old new)
    with Pair assms show ?thesis by (simp add: unique_usernames_updateUsername)
  next
    case Op_clearAllCredentials
    with Pair show ?thesis
      by (simp add: clearAllCredentials_def unique_usernames_saveCredentials)
         (simp add: unique_usernames_def)
  next
    case (Op_neverSaveForSite u)
    have "credentialsCache (neverSaveForSite P E st u) = credentialsCache st"
    proof (cases "falsy (getOrigin P u)")
      case True
      then show ?thesis by (simp add: neverSaveForSite_def)
    next
      case False
      let ?s = "st\<lparr>neverSaveSites := set_add (the (getOrigin P u)) (neverSaveSites st)\<rparr>"
      from saveNeverSaveSites_frame[of P E ?s] False show ?thesis
        by (auto simp: neverSaveForSite_def Let_def)
    qed
    from unique_usernames_cache_eq[OF this] Pair Op_neverSaveForSite assms show ?thesis
      by simp
  next
    case (Op_enableSaveForSite u)
    have "credentialsCache (enableSaveForSite P E st u) = credentialsCache st"
    proof (cases "falsy (getOrigin P u)")
      case True
      then show ?thesis by (simp add: enableSaveForSite_def)
    next
      case False
      let ?s = "st\<lparr>neverSaveSites := set_delete (the (getOrigin P u)) (neverSaveSites st)\<rparr>"
      from saveNeverSaveSites_frame[of P E ?s] False show ?thesis
        by (auto simp: enableSaveForSite_def Let_def)
    qed
    from unique_usernames_cache_eq[OF this] Pair Op_enableSaveForSite assms show ?thesis
      by simp
  qed
qed

text \<open>
  The invariant holds in every state reached from the empty store by the calls of
  \<^typ>\<open>cm_op\<close>.
\<close>

lemma unique_usernames_run_ops:
  assumes "unique_usernames st"
  shows "unique_usernames (run_ops P st ops)"
  using assms unfolding run_ops_def
  by (induction ops arbitrary: st) (simp_all add: unique_usernames_apply_op)

lemma unique_usernames_empty_store: "unique_usernames empty_store"
  by (simp add: unique_usernames_def empty_store_def)

text \<open>
  C2.  In a store where usernames are unique within an origin (the invariant of the data
  model, which \<open>saveCredential\<close> maintains), after two saves for the same origin and
  username exactly one record is stored for that pair: it holds the second secret, its
  \<open>createdAt\<close> is the one the record had after the first save, and its
  \<open>updatedAt\<close> is the clock reading of the second save.
\<close>

theorem two_saves_one_record:
  assumes "getOrigin P u = Some origin" and "unique_usernames st"
  shows "\<exists>c1. stored_for (snd (saveCredential P E1 st u user pw1)) origin user = [c1] \<and>
              password c1 = pw1 \<and>
              stored_for (snd (saveCredential P E2 (snd (saveCredential P E1 st u user pw1))
                                 u user pw2)) origin user =
                [\<lparr>username = user, password = pw2, createdAt = createdAt c1,
                  updatedAt = now_updated E2\<rparr>]"
proof -
  let ?st1 = "snd (saveCredential P E1 st u user pw1)"
  note d0 = unique_usernames_lookup[OF assms(2), of origin]
  note first = stored_for_saveCredential[OF assms(1) d0, of E1 user pw1]
  note second = stored_for_saveCredential(1)[OF assms(1) first(2), of E2 user pw2]
  from first(1) second show ?thesis by simp
qed

theorem two_saves_one_record_witness:
  "getOrigin demo_platform ''https://example.com/login'' = Some ''https://example.com'' \<and>
   unique_usernames empty_store \<and>
   stored_for
     (snd (saveCredential demo_platform (demo_env 2000)
        (snd (saveCredential demo_platform (demo_env 1000) empty_store
                ''https://example.com/login'' ''alice'' ''p1''))
        ''https://example.com/login'' ''alice'' ''p2''))
     ''https://example.com'' ''alice'' =
   [\<lparr>username = ''alice'', password = ''p2'', createdAt = 1000, updatedAt = 2001\<rparr>]"
proof -
  have first: "stored_for (snd (saveCredential demo_platform (demo_env 1000) empty_store
                 ''https://example.com/login'' ''alice'' ''p1'')) ''https://example.com'' ''alice'' =
               [\<lparr>username = ''alice'', password = ''p1'', createdAt = 1000, updatedAt = 1001\<rparr>]"
    by (simp add: stored_for_def saveCredential_cache[OF demo_origin] empty_store_def
        demo_env_def)
  from two_saves_one_record[OF demo_origin unique_usernames_empty_store,
      of "demo_env 1000" "''alice''" "''p1''" "demo_env 2000" "''p2''"]
  obtain c1 where
    one: "stored_for (snd (saveCredential demo_platform (demo_env 1000) empty_store
            ''https://example.com/login'' ''alice'' ''p1'')) ''https://example.com'' ''alice'' = [c1]"
    and two: "stored_for
       (snd (saveCredential demo_platform (demo_env 2000)
          (snd (saveCredential demo_platform (demo_env 1000) empty_store
                  ''https://example.com/login'' ''alice'' ''p1''))
          ''https://example.com/login'' ''alice'' ''p2''))
       ''https://example.com'' ''alice'' =
       [\<lparr>username = ''alice'', password = ''p2'', createdAt = createdAt c1,
         updatedAt = now_updated (demo_env 2000)\<rparr>]"
    by blast
  from one first have "c1 = \<lparr>username = ''alice'', password = ''p1'', createdAt = 1000, updatedAt = 1001\<rparr>"
    by simp
  then have "createdAt c1 = 1000" by simp
  with two show ?thesis
    using demo_origin unique_usernames_empty_store by (simp add: demo_env_def)
qed


subsection \<open>C4: empty credentials\<close>

lemma saveCredential_unparsed:
  "getOrigin P u = None \<Longrightarrow> saveCredential P E st u user pw = (False, st)"
  by (simp add: saveCredential_def falsy_def)

lemma stored_for_password:
  assumes "getOrigin P u = Some origin"
  shows "\<exists>c \<in> set (stored_for (snd (saveCredential P E st u user pw)) origin user). password c = pw"
proof -
  let ?cs = "case map_of (credentialsCache st) origin of None \<Rightarrow> [] | Some cs \<Rightarrow> cs"
  let ?i = "findIndex (\<lambda>c. username c = user) ?cs"
  let ?entry = "\<lparr>username = user, password = pw,
                  createdAt = (if ?i \<ge> 0 then createdAt (?cs ! nat ?i) else now_created E),
                  updatedAt = now_updated E\<rparr>"
  let ?new = "if ?i \<ge> 0 then ?cs[nat ?i := ?entry] else ?cs @ [?entry]"
  have "map_of (credentialsCache (snd (saveCredential P E st u user pw))) origin = Some ?new"
    using saveCredential_cache[OF assms, of E st user pw] by (simp add: Let_def)
  moreover have "?entry \<in> set ?new" by (rule entry_in_updated_list)
  ultimately have "?entry \<in> set (stored_for (snd (saveCredential P E st u user pw)) origin user)"
    by (simp add: stored_for_def)
  then show ?thesis by (rule bexI[rotated]) simp
qed

text \<open>
  C4, as the claim states it, fails: \<open>saveCredential\<close> with an empty username returns
  \<open>true\<close> and stores the record.
\<close>

theorem empty_username_saved_counterexample:
  "fst (saveCredential demo_platform (demo_env 1000) empty_store
          ''https://example.com/login'' '''' ''p1'') \<and>
   credentialsCache (snd (saveCredential demo_platform (demo_env 1000) empty_store
                            ''https://example.com/login'' '''' ''p1'')) =
     [(''https://example.com'',
       [\<lparr>username = '''', password = ''p1'', createdAt = 1000, updatedAt = 1001\<rparr>])] \<and>
   credentialsCache empty_store = []"
proof -
  have nf: "\<not> falsy (getOrigin demo_platform ''https://example.com/login'')"
    using demo_origin by (simp add: falsy_def)
  show ?thesis
    using nf demo_origin
    by (simp add: saveCredential_def Let_def saveCredentials_cache empty_store_def demo_env_def)
qed

text \<open>
  C4, amended.  \<open>saveCredential\<close> does not look at the username or the secret: whenever
  the URL's origin parses it returns \<open>true\<close> and stores the record, and only a URL
  without an origin is turned down, with \<open>false\<close> and the store unchanged.  Empty
  credentials are stopped before the save: \<open>handleFormSubmit\<close> reports a submission
  only with a non-empty trimmed username and a non-empty password, and
  \<open>handleCredentialSubmit\<close> keeps a pending credential only when URL, username and
  password are all non-empty.
\<close>

theorem empty_credentials_stopped_before_save:
  "(handleFormSubmit usernameField passwordField href origin = Some m \<longrightarrow>
      msg_username m \<noteq> [] \<and> msg_password m \<noteq> [] \<and>
      usernameField \<noteq> None \<and> msg_username m = trim (the usernameField) \<and>
      passwordField = Some (msg_password m)) \<and>
   (handleCredentialSubmit d = Some (u', user', pw') \<longrightarrow>
      u' \<noteq> [] \<and> user' \<noteq> [] \<and> pw' \<noteq> [] \<and>
      u' = msg_url d \<and> user' = msg_username d \<and> pw' = msg_password d) \<and>
   (getOrigin P u = Some o' \<longrightarrow>
      fst (saveCredential P E st u user pw) \<and>
      (\<exists>c \<in> set (stored_for (snd (saveCredential P E st u user pw)) o' user). password c = pw)) \<and>
   (getOrigin P u = None \<longrightarrow> saveCredential P E st u user pw = (False, st))"
proof (intro conjI impI)
  assume h: "handleFormSubmit usernameField passwordField href origin = Some m"
  then have nf: "\<not> falsy (map_option trim usernameField)" "\<not> falsy passwordField"
    by (auto simp: handleFormSubmit_def Let_def split: if_splits)
  then obtain x y where xy: "usernameField = Some x" "passwordField = Some y" "trim x \<noteq> []" "y \<noteq> []"
    by (cases usernameField; cases passwordField) (auto simp: falsy_def)
  with h have m: "m = \<lparr>msg_username = trim x, msg_password = y, msg_url = href, msg_origin = origin\<rparr>"
    by (simp add: handleFormSubmit_def Let_def falsy_def)
  from m xy show "msg_username m \<noteq> []" by simp
  from m xy show "msg_password m \<noteq> []" by simp
  from xy show "usernameField \<noteq> None" by simp
  from m xy show "msg_username m = trim (the usernameField)" by simp
  from m xy show "passwordField = Some (msg_password m)" by simp
next
  assume h: "handleCredentialSubmit d = Some (u', user', pw')"
  then have ne: "msg_url d \<noteq> []" "msg_username d \<noteq> []" "msg_password d \<noteq> []"
    and eq: "u' = msg_url d" "user' = msg_username d" "pw' = msg_password d"
    by (auto simp: handleCredentialSubmit_def split: if_splits)
  from ne eq show "u' \<noteq> []" by simp
  from ne eq show "user' \<noteq> []" by simp
  from ne eq show "pw' \<noteq> []" by simp
  from eq show "u' = msg_url d" by simp
  from eq show "user' = msg_username d" by simp
  from eq show "pw' = msg_password d" by simp
next
  assume "getOrigin P u = Some o'"
  then show "fst (saveCredential P E st u user pw)" by (rule saveCredential_returns_true)
next
  assume "getOrigin P u = Some o'"
  then show "\<exists>c \<in> set (stored_for (snd (saveCredential P E st u user pw)) o' user). password c = pw"
    by (rule stored_for_password)
next
  assume "getOrigin P u = None"
  then show "saveCredential P E st u user pw = (False, st)" by (rule saveCredential_unparsed)
qed

lemma demo_no_origin: "getOrigin demo_platform '''' = None"
  by (simp add: getOrigin_def new_URL_def)

lemma trim_alice: "trim '' alice '' = ''alice''"
  by (simp add: trim_def is_js_space_def)

theorem empty_credentials_stopped_before_save_witness:
  "handleFormSubmit (Some '' alice '') (Some ''p1'') ''https://example.com/login''
      ''https://example.com'' =
     Some \<lparr>msg_username = ''alice'', msg_password = ''p1'',
           msg_url = ''https://example.com/login'', msg_origin = ''https://example.com''\<rparr> \<and>
   handleCredentialSubmit
     \<lparr>msg_username = ''alice'', msg_password = ''p1'',
      msg_url = ''https://example.com/login'', msg_origin = ''https://example.com''\<rparr> =
     Some (''https://example.com/login'', ''alice'', ''p1'') \<and>
   handleFormSubmit (Some ''  '') (Some ''p1'') ''https://example.com/login''
      ''https://example.com'' = None \<and>
   getOrigin demo_platform ''https://example.com/login'' = Some ''https://example.com'' \<and>
   fst (saveCredential demo_platform (demo_env 1000) empty_store
          ''https://example.com/login'' '''' ''p1'') \<and>
   (\<exists>c \<in> set (stored_for (snd (saveCredential demo_platform (demo_env 1000) empty_store
                                    ''https://example.com/login'' '''' ''p1''))
                   ''https://example.com'' ''''). password c = ''p1'') \<and>
   getOrigin demo_platform '''' = None \<and>
   saveCredential demo_platform (demo_env 1000) empty_store '''' ''alice'' ''p1'' =
     (False, empty_store)"
proof -
  let ?m = "\<lparr>msg_username = ''alice'', msg_password = ''p1'',
             msg_url = ''https://example.com/login'', msg_origin = ''https://example.com''\<rparr>"
  have a: "handleFormSubmit (Some '' alice '') (Some ''p1'') ''https://example.com/login''
             ''https://example.com'' = Some ?m"
    by (simp add: handleFormSubmit_def Let_def falsy_def trim_alice)
  have b: "handleCredentialSubmit ?m = Some (''https://example.com/login'', ''alice'', ''p1'')"
    by (simp add: handleCredentialSubmit_def)
  have c: "handleFormSubmit (Some ''  '') (Some ''p1'') ''https://example.com/login''
             ''https://example.com'' = None"
    by (simp add: handleFormSubmit_def Let_def falsy_def trim_def is_js_space_def)
  note parsed = empty_credentials_stopped_before_save[where P = demo_platform
      and u = "''https://example.com/login''" and o' = "''https://example.com''"
      and E = "demo_env 1000" and st = empty_store and user = "''''" and pw = "''p1''"
      and usernameField = "Some '' alice ''" and passwordField = "Some ''p1''"
      and href = "''https://example.com/login''" and origin = "''https://example.com''"
      and m = ?m and d = ?m and u' = "''https://example.com/login''"
      and user' = "''alice''" and pw' = "''p1''"]
  note unparsed = empty_credentials_stopped_before_save[where P = demo_platform
      and u = "''''" and o' = "''https://example.com''"
      and E = "demo_env 1000" and st = empty_store and user = "''alice''" and pw = "''p1''"
      and usernameField = "Some '' alice ''" and passwordField = "Some ''p1''"
      and href = "''https://example.com/login''" and origin = "''https://example.com''"
      and m = ?m and d = ?m and u' = "''https://example.com/login''"
      and user' = "''alice''" and pw' = "''p1''"]
  from parsed demo_origin
  have saved: "fst (saveCredential demo_platform (demo_env 1000) empty_store
                      ''https://example.com/login'' '''' ''p1'') \<and>
     (\<exists>c \<in> set (stored_for (snd (saveCredential demo_platform (demo_env 1000) empty_store
                                     ''https://example.com/login'' '''' ''p1''))
                    ''https://example.com'' ''''). password c = ''p1'')"
    by blast
  from unparsed demo_no_origin
  have rejected: "saveCredential demo_platform (demo_env 1000) empty_store '''' ''alice'' ''p1'' =
     (False, empty_store)"
    by blast
  from a b c saved rejected demo_origin demo_no_origin show ?thesis by blast
qed


subsection \<open>C5: the never-save list gates the save prompt\<close>

lemma shouldPromptSave_iff:
  "shouldPromptSave P st u \<longleftrightarrow>
     (\<exists>origin. getOrigin P u = Some origin \<and> origin \<notin> set (neverSaveSites st))"
  using falsy_getOrigin[of P u]
  by (cases "getOrigin P u") (auto simp: shouldPromptSave_def Let_def set_has_def)

lemma neverSaveSites_neverSaveForSite:
  "neverSaveSites (neverSaveForSite P E st u) =
     (case getOrigin P u of None \<Rightarrow> neverSaveSites st
      | Some origin \<Rightarrow> set_add origin (neverSaveSites st))"
proof (cases "getOrigin P u")
  case None
  then show ?thesis by (simp add: neverSaveForSite_def falsy_def)
next
  case (Some origin)
  have nf: "\<not> falsy (getOrigin P u)" using falsy_getOrigin[of P u] Some by simp
  let ?s = "st\<lparr>neverSaveSites := set_add origin (neverSaveSites st)\<rparr>"
  from saveNeverSaveSites_frame[of P E ?s] Some nf show ?thesis
    by (auto simp: neverSaveForSite_def Let_def)
qed

lemma neverSaveSites_enableSaveForSite:
  "neverSaveSites (enableSaveForSite P E st u) =
     (case getOrigin P u of None \<Rightarrow> neverSaveSites st
      | Some origin \<Rightarrow> set_delete origin (neverSaveSites st))"
proof (cases "getOrigin P u")
  case None
  then show ?thesis by (simp add: enableSaveForSite_def falsy_def)
next
  case (Some origin)
  have nf: "\<not> falsy (getOrigin P u)" using falsy_getOrigin[of P u] Some by simp
  let ?s = "st\<lparr>neverSaveSites := set_delete origin (neverSaveSites st)\<rparr>"
  from saveNeverSaveSites_frame[of P E ?s] Some nf show ?thesis
    by (auto simp: enableSaveForSite_def Let_def)
qed

lemma neverSaveForSite_credentials:
  "credentialsCache (neverSaveForSite P E st u) = credentialsCache st \<and>
   credentialsFile (neverSaveForSite P E st u) = credentialsFile st"
proof (cases "falsy (getOrigin P u)")
  case True
  then show ?thesis by (simp add: neverSaveForSite_def)
next
  case False
  let ?s = "st\<lparr>neverSaveSites := set_add (the (getOrigin P u)) (neverSaveSites st)\<rparr>"
  from saveNeverSaveSites_frame[of P E ?s] False show ?thesis
    by (auto simp: neverSaveForSite_def Let_def)
qed

lemma neverSaveSites_cache_ops:
  "neverSaveSites (snd (saveCredential P E st u user pw)) = neverSaveSites st"
  "neverSaveSites (snd (deleteCredential P E st u user)) = neverSaveSites st"
  "neverSaveSites (snd (deleteAllForOrigin P E st u)) = neverSaveSites st"
  "neverSaveSites (snd (updateUsername P E st u old new)) = neverSaveSites st"
  "neverSaveSites (clearAllCredentials P E st) = neverSaveSites st"
  by (simp_all add: saveCredential_def deleteCredential_def deleteAllForOrigin_def
      updateUsername_def clearAllCredentials_def Let_def saveCredentials_never
      split: option.splits)

lemma apply_op_keeps_never:
  assumes "origin \<in> set (neverSaveSites st)" and "\<not> enables P origin eop"
  shows "origin \<in> set (neverSaveSites (apply_op P st eop))"
proof (cases eop)
  case (Pair E op)
  show ?thesis
  proof (cases op)
    case (Op_neverSaveForSite v)
    with Pair assms(1) show ?thesis
      by (simp add: neverSaveSites_neverSaveForSite set_add_def split: option.splits)
  next
    case (Op_enableSaveForSite v)
    with Pair assms show ?thesis
      by (auto simp: neverSaveSites_enableSaveForSite set_delete_def split: option.splits)
  qed (use Pair assms(1) in \<open>simp_all add: neverSaveSites_cache_ops\<close>)
qed

lemma run_ops_keeps_never:
  assumes "origin \<in> set (neverSaveSites st)" and "\<forall>eop \<in> set ops. \<not> enables P origin eop"
  shows "origin \<in> set (neverSaveSites (run_ops P st ops))"
  using assms unfolding run_ops_def
proof (induction ops arbitrary: st)
  case Nil
  then show ?case by simp
next
  case (Cons eop ops)
  from Cons.prems have "origin \<in> set (neverSaveSites (apply_op P st eop))"
    by (intro apply_op_keeps_never) auto
  with Cons.IH[of "apply_op P st eop"] Cons.prems(2) show ?case by simp
qed

text \<open>
  C5, as the claim states it, fails: for a URL without an origin \<open>shouldPromptSave\<close> is
  false although the never-save list is empty.
\<close>

theorem shouldPromptSave_unparsed_counterexample:
  "\<not> shouldPromptSave demo_platform empty_store '''' \<and>
   getOrigin demo_platform '''' = None \<and>
   neverSaveSites empty_store = []"
  by (simp add: shouldPromptSave_def getOrigin_def new_URL_def falsy_def empty_store_def)

text \<open>
  C5, amended.  \<open>shouldPromptSave\<close> is false exactly when the URL has no origin or its
  origin is in the never-save list.  For a URL whose origin parses: after
  \<open>neverSaveForSite\<close> it is false, and it stays false through every sequence of calls
  that contains no \<open>enableSaveForSite\<close> for that origin; after
  \<open>enableSaveForSite\<close> it is true.  \<open>neverSaveForSite\<close> changes neither the
  cached credentials nor the credentials file.
\<close>

theorem never_save_gating:
  "(\<not> shouldPromptSave P st u \<longleftrightarrow>
      getOrigin P u = None \<or>
      (\<exists>origin. getOrigin P u = Some origin \<and> origin \<in> set (neverSaveSites st))) \<and>
   (getOrigin P u = Some origin \<longrightarrow>
      (\<forall>eop \<in> set ops. \<not> enables P origin eop) \<longrightarrow>
      \<not> shouldPromptSave P (run_ops P (neverSaveForSite P E st u) ops) u) \<and>
   (getOrigin P u = Some origin \<longrightarrow> shouldPromptSave P (enableSaveForSite P E' st u) u) \<and>
   credentialsCache (neverSaveForSite P E st u) = credentialsCache st \<and>
   credentialsFile (neverSaveForSite P E st u) = credentialsFile st"
proof (intro conjI impI)
  show "\<not> shouldPromptSave P st u \<longleftrightarrow>
      getOrigin P u = None \<or>
      (\<exists>origin. getOrigin P u = Some origin \<and> origin \<in> set (neverSaveSites st))"
    by (cases "getOrigin P u") (auto simp: shouldPromptSave_iff)
next
  assume o: "getOrigin P u = Some origin"
    and ops: "\<forall>eop \<in> set ops. \<not> enables P origin eop"
  have "origin \<in> set (neverSaveSites (neverSaveForSite P E st u))"
    using o by (simp add: neverSaveSites_neverSaveForSite set_add_def)
  from run_ops_keeps_never[OF this ops] o
  show "\<not> shouldPromptSave P (run_ops P (neverSaveForSite P E st u) ops) u"
    by (simp add: shouldPromptSave_iff)
next
  assume o: "getOrigin P u = Some origin"
  then show "shouldPromptSave P (enableSaveForSite P E' st u) u"
    by (simp add: shouldPromptSave_iff neverSaveSites_enableSaveForSite set_delete_def)
next
  show "credentialsCache (neverSaveForSite P E st u) = credentialsCache st"
    using neverSaveForSite_credentials by blast
next
  show "credentialsFile (neverSaveForSite P E st u) = credentialsFile st"
    using neverSaveForSite_credentials by blast
qed

lemma demo_other_origin:
  "getOrigin demo_platform ''https://other.example/'' = Some ''https://other.example''"
  by (simp add: getOrigin_def new_URL_def demo_platform_def parse_http_url_def mk_url_def
      authority_of_def Let_def)

theorem never_save_gating_witness:
  "getOrigin demo_platform ''https://example.com/login'' = Some ''https://example.com'' \<and>
   shouldPromptSave demo_platform empty_store ''https://example.com/login'' \<and>
   \<not> shouldPromptSave demo_platform
       (run_ops demo_platform
          (neverSaveForSite demo_platform (demo_env 1) empty_store ''https://example.com/login'')
          [(demo_env 2, Op_saveCredential ''https://example.com/login'' ''alice'' ''p1''),
           (demo_env 3, Op_enableSaveForSite ''https://other.example/''),
           (demo_env 4, Op_deleteAllForOrigin ''https://example.com/login'')])
       ''https://example.com/login'' \<and>
   shouldPromptSave demo_platform
     (enableSaveForSite demo_platform (demo_env 5)
        (neverSaveForSite demo_platform (demo_env 1) empty_store ''https://example.com/login'')
        ''https://example.com/login'')
     ''https://example.com/login''"
proof -
  let ?u = "''https://example.com/login''"
  let ?ops = "[(demo_env 2, Op_saveCredential ?u ''alice'' ''p1''),
               (demo_env 3, Op_enableSaveForSite ''https://other.example/''),
               (demo_env 4, Op_deleteAllForOrigin ?u)]"
  have quiet: "\<forall>eop \<in> set ?ops. \<not> enables demo_platform ''https://example.com'' eop"
    by (simp add: demo_other_origin)
  have fresh: "shouldPromptSave demo_platform empty_store ?u"
    using never_save_gating[where P = demo_platform and st = empty_store and u = ?u
        and origin = "''https://example.com''" and ops = "[]" and E = "demo_env 1"
        and E' = "demo_env 5"] demo_origin
    by (simp add: empty_store_def)
  note after = never_save_gating[where P = demo_platform and st = empty_store and u = ?u
      and origin = "''https://example.com''" and ops = ?ops and E = "demo_env 1"
      and E' = "demo_env 5"]
  note again = never_save_gating[where P = demo_platform
      and st = "neverSaveForSite demo_platform (demo_env 1) empty_store ?u" and u = ?u
      and origin = "''https://example.com''" and ops = "[]" and E = "demo_env 1"
      and E' = "demo_env 5"]
  from after demo_origin quiet
  have stays: "\<not> shouldPromptSave demo_platform
       (run_ops demo_platform (neverSaveForSite demo_platform (demo_env 1) empty_store ?u) ?ops) ?u"
    by blast
  from again demo_origin
  have reenabled: "shouldPromptSave demo_platform
     (enableSaveForSite demo_platform (demo_env 5)
        (neverSaveForSite demo_platform (demo_env 1) empty_store ?u) ?u) ?u"
    by blast
  from demo_origin fresh stays reenabled show ?thesis by blast
qed


subsection \<open>C3: the fallback cipher reads back what it wrote\<close>

text \<open>The codec: what was written from well-formed UTF-16 is read back unchanged.\<close>

lemma one_byte: "u < 128 \<Longrightarrow> utf8_units (u # t) = u # utf8_units t"
  by simp

lemma two_bytes:
  assumes "128 \<le> u" "u < 2048"
  shows "utf8_units ((192 + u div 64) # (128 + u mod 64) # t) = u # utf8_units t"
proof -
  have a: "2 \<le> u div 64" "u div 64 < 32" using assms by simp_all
  have c: "cont (128 + u mod 64)" by (simp add: cont_def)
  have v: "u div 64 * 64 + u mod 64 = u" by simp
  have h: "194 \<le> 192 + u div 64" "192 + u div 64 < 224" "\<not> 192 + u div 64 < 128" using a by simp_all
  show ?thesis
    apply (subst utf8_units.simps)
    using h c v by (simp del: utf8_units.simps)
qed

lemma second_of3_ok:
  assumes "2048 \<le> u" "u < 65536" "\<not> is_high u" "\<not> is_low u"
  shows "second_of3 (224 + u div 4096) (128 + u div 64 mod 64)"
proof -
  have lead0: "32 \<le> u div 64 mod 64" if "u div 4096 = 0"
  proof -
    from that have "u < 4096" by (simp add: div_eq_0_iff)
    then have "u div 64 < 64" by simp
    then have "u div 64 mod 64 = u div 64" by simp
    moreover have "32 \<le> u div 64" using assms(1) by simp
    ultimately show ?thesis by simp
  qed
  have lead13: "u div 64 mod 64 < 32" if h: "u div 4096 = 13"
  proof -
    from assms(3,4) have "u < 55296 \<or> 57344 \<le> u" by (auto simp: is_high_def is_low_def)
    moreover from h have "u < 57344" by simp
    ultimately have lt: "u < 55296" by simp
    from h have ge: "53248 \<le> u" by simp
    from ge lt have b: "u div 64 < 864" "832 \<le> u div 64" by simp_all
    define r where "r = u div 64 - 832"
    from b have q: "u div 64 = 13 * 64 + r" and r: "r < 32" by (simp_all add: r_def)
    have "(13 * 64 + r) mod 64 = r mod 64" by (rule mod_mult_self3)
    with q r show ?thesis by simp
  qed
  from lead0 lead13 show ?thesis by (auto simp: second_of3_def cont_def)
qed

lemma base64_3: "(u::nat) div 4096 * 4096 + u div 64 mod 64 * 64 + u mod 64 = u"
proof -
  define A B C D where "A = u div 4096" and "B = u div 64" and "C = u div 64 mod 64"
    and "D = u mod 64"
  have "u div 64 div 64 = u div (64 * 64)" by (rule div_mult2_eq[symmetric])
  then have a: "B div 64 = A" by (simp add: A_def B_def)
  have "B = B div 64 * 64 + B mod 64" by simp
  with a have b: "B = A * 64 + C" by (simp add: B_def C_def)
  have c: "u = B * 64 + D" by (simp add: B_def D_def)
  from b c have "A * 4096 + C * 64 + D = u" by simp
  then show ?thesis by (simp add: A_def C_def D_def)
qed

lemma three_bytes:
  assumes "2048 \<le> u" "u < 65536" "\<not> is_high u" "\<not> is_low u"
  shows "utf8_units ((224 + u div 4096) # (128 + u div 64 mod 64) # (128 + u mod 64) # t) =
         u # utf8_units t"
proof -
  have a: "u div 4096 < 16" using assms(2) by simp
  then have h: "\<not> 224 + u div 4096 < 128" "\<not> (194 \<le> 224 + u div 4096 \<and> 224 + u div 4096 < 224)"
    "224 \<le> 224 + u div 4096 \<and> 224 + u div 4096 < 240" by simp_all
  note s = second_of3_ok[OF assms]
  have d: "cont (128 + u mod 64)" by (simp add: cont_def)
  show ?thesis
    apply (subst utf8_units.simps)
    using h s d base64_3[of u] by (simp del: utf8_units.simps)
qed

lemma base64_4:
  "(n::nat) div 262144 * 262144 + n div 4096 mod 64 * 4096 + n div 64 mod 64 * 64 + n mod 64 = n"
proof -
  define A B C where "A = n div 262144" and "B = n div 4096" and "C = n div 64"
  have "n div 64 div 64 = n div (64 * 64)" by (rule div_mult2_eq[symmetric])
  then have cb: "C div 64 = B" by (simp add: B_def C_def)
  have "n div 4096 div 64 = n div (4096 * 64)" by (rule div_mult2_eq[symmetric])
  then have ba: "B div 64 = A" by (simp add: A_def B_def)
  have "B = B div 64 * 64 + B mod 64" by simp
  with ba have b: "B = A * 64 + B mod 64" by simp
  have "C = C div 64 * 64 + C mod 64" by simp
  with cb have c: "C = B * 64 + C mod 64" by simp
  have n: "n = C * 64 + n mod 64" by (simp add: C_def)
  define b' c' d' where "b' = B mod 64" and "c' = C mod 64" and "d' = n mod 64"
  from b c n have "B = A * 64 + b'" "C = B * 64 + c'" "n = C * 64 + d'"
    by (simp_all add: b'_def c'_def d'_def)
  then have "A * 262144 + b' * 4096 + c' * 64 + d' = n" by simp
  then show ?thesis by (simp add: A_def B_def C_def b'_def c'_def d'_def)
qed

lemma second_of4_ok:
  assumes "65536 \<le> n" "n < 1114112"
  shows "second_of4 (240 + n div 262144) (128 + n div 4096 mod 64)"
proof -
  have lead0: "16 \<le> n div 4096 mod 64" if "n div 262144 = 0"
  proof -
    from that have "n < 262144" by (simp add: div_eq_0_iff)
    then have "n div 4096 < 64" by simp
    then have "n div 4096 mod 64 = n div 4096" by simp
    moreover have "16 \<le> n div 4096" using assms(1) by simp
    ultimately show ?thesis by simp
  qed
  have lead13: "n div 4096 mod 64 < 16" if h: "n div 262144 = 4"
  proof -
    from h have ge: "1048576 \<le> n" by simp
    from ge assms(2) have b: "n div 4096 < 272" "256 \<le> n div 4096" by simp_all
    define r where "r = n div 4096 - 256"
    from b have q: "n div 4096 = 4 * 64 + r" and r: "r < 16" by (simp_all add: r_def)
    have "(4 * 64 + r) mod 64 = r mod 64" by (rule mod_mult_self3)
    with q r show ?thesis by simp
  qed
  from lead0 lead13 show ?thesis by (auto simp: second_of4_def cont_def)
qed

lemma four_bytes:
  assumes "is_high u" "is_low v" and "n = 65536 + (u - 55296) * 1024 + (v - 56320)"
  shows "utf8_units ((240 + n div 262144) # (128 + n div 4096 mod 64) #
                     (128 + n div 64 mod 64) # (128 + n mod 64) # t) =
         u # v # utf8_units t"
proof -
  define x y where "x = u - 55296" and "y = v - 56320"
  from assms(1,2) have u: "u = 55296 + x" "x < 1024" and v: "v = 56320 + y" "y < 1024"
    by (auto simp: is_high_def is_low_def x_def y_def)
  have n: "n = 65536 + x * 1024 + y" by (simp add: assms(3) x_def y_def)
  have lo: "65536 \<le> n" by (simp add: n)
  have "x * 1024 \<le> 1023 * 1024" using u(2) by simp
  then have hi: "n < 1114112" using v(2) by (simp add: n)
  have a: "n div 262144 < 5" using hi by simp
  then have h: "\<not> 240 + n div 262144 < 128"
    "\<not> (194 \<le> 240 + n div 262144 \<and> 240 + n div 262144 < 224)"
    "\<not> (224 \<le> 240 + n div 262144 \<and> 240 + n div 262144 < 240)"
    "240 \<le> 240 + n div 262144 \<and> 240 + n div 262144 < 245" by simp_all
  note s = second_of4_ok[OF lo hi]
  have c: "cont (128 + n div 64 mod 64)" "cont (128 + n mod 64)" by (simp_all add: cont_def)
  have sub: "n - 65536 = x * 1024 + y" by (simp add: n)
  have units: "55296 + (n - 65536) div 1024 = u" "56320 + (n - 65536) mod 1024 = v"
    unfolding sub using u v by simp_all
  show ?thesis
    apply (subst utf8_units.simps)
    using h s c base64_4[of n] units by (simp del: utf8_units.simps add: Let_def)
qed

lemma utf8_units_bytes:
  "well_formed_units us \<Longrightarrow> \<forall>u\<in>set us. u < 65536 \<Longrightarrow> utf8_units (utf8_bytes us) = us"
proof (induction us rule: utf8_bytes.induct)
  case 1
  show ?case by simp
next
  case (2 u us)
  from "2.prems"(2) have u16: "u < 65536" and rest16: "\<forall>w\<in>set us. w < 65536" by simp_all
  show ?case
  proof (cases "u < 128")
    case True
    then have nh: "\<not> is_high u" by (simp add: is_high_def)
    with "2.prems"(1) have "well_formed_units us" by simp
    with "2.IH"(1)[OF True] rest16 have "utf8_units (utf8_bytes us) = us" by simp
    with True show ?thesis by (simp add: one_byte del: utf8_units.simps)
  next
    case ge128: False
    show ?thesis
    proof (cases "u < 2048")
      case True
      then have nh: "\<not> is_high u" by (simp add: is_high_def)
      with "2.prems"(1) have "well_formed_units us" by simp
      with "2.IH"(2)[OF ge128 True] rest16 have "utf8_units (utf8_bytes us) = us" by simp
      with ge128 True show ?thesis by (simp add: two_bytes del: utf8_units.simps)
    next
      case ge2048: False
      show ?thesis
      proof (cases "is_high u")
        case True
        with "2.prems"(1) obtain v vs where us: "us = v # vs" and low: "is_low v"
          and wf: "well_formed_units vs"
          by (cases us) auto
        from rest16 us have "\<forall>w\<in>set vs. w < 65536" by simp
        with "2.IH"(3)[OF ge128 ge2048 True us low refl] wf
        have ih: "utf8_units (utf8_bytes vs) = vs" by simp
        have enc: "utf8_bytes (u # us) =
            (240 + (65536 + (u - 55296) * 1024 + (v - 56320)) div 262144) #
            (128 + (65536 + (u - 55296) * 1024 + (v - 56320)) div 4096 mod 64) #
            (128 + (65536 + (u - 55296) * 1024 + (v - 56320)) div 64 mod 64) #
            (128 + (65536 + (u - 55296) * 1024 + (v - 56320)) mod 64) # utf8_bytes vs"
          using ge128 ge2048 True us low by (simp add: Let_def)
        show ?thesis
          unfolding enc four_bytes[OF True low refl] using ih us by simp
      next
        case nh: False
        with "2.prems"(1) have nl: "\<not> is_low u" and wf: "well_formed_units us" by simp_all
        from "2.IH"(6)[OF ge128 ge2048 nh nl] wf rest16
        have ih: "utf8_units (utf8_bytes us) = us" by simp
        have enc: "utf8_bytes (u # us) =
            (224 + u div 4096) # (128 + u div 64 mod 64) # (128 + u mod 64) # utf8_bytes us"
          using ge128 ge2048 nh nl by simp
        have "2048 \<le> u" using ge2048 by simp
        from three_bytes[OF this u16 nh nl] ih show ?thesis
          unfolding enc by simp
      qed
    qed
  qed
qed

lemma mod64_small: "128 + (k::nat) mod 64 < 256"
proof -
  have "k mod 64 < 64" by simp
  then show ?thesis by simp
qed

lemma utf8_bytes_small:
  "\<forall>u\<in>set us. u < 65536 \<Longrightarrow> \<forall>b\<in>set (utf8_bytes us). b < 256"
proof (induction us rule: utf8_bytes.induct)
  case 1
  show ?case by simp
next
  case (2 u us)
  from "2.prems" have u16: "u < 65536" and rest16: "\<forall>w\<in>set us. w < 65536" by simp_all
  show ?case
  proof (cases "u < 128")
    case True
    with "2.IH"(1) rest16 show ?thesis by simp
  next
    case ge128: False
    show ?thesis
    proof (cases "u < 2048")
      case True
      then have "192 + u div 64 < 256" by simp
      with ge128 True "2.IH"(2) rest16 mod64_small[of u] show ?thesis by simp
    next
      case ge2048: False
      show ?thesis
      proof (cases "is_high u")
        case True
        show ?thesis
        proof (cases us)
          case Nil
          with ge128 ge2048 True show ?thesis by simp
        next
          case (Cons v vs)
          from rest16 Cons have vs16: "\<forall>w\<in>set vs. w < 65536" by simp
          show ?thesis
          proof (cases "is_low v")
            case low: True
            define n where "n = 65536 + (u - 55296) * 1024 + (v - 56320)"
            from True low have "u - 55296 < 1024" "v - 56320 < 1024"
              by (auto simp: is_high_def is_low_def)
            then have "(u - 55296) * 1024 \<le> 1023 * 1024" "v - 56320 < 1024" by simp_all
            then have "n < 1114112" by (simp add: n_def)
            then have "240 + n div 262144 < 256" by simp
            moreover from "2.IH"(3)[OF ge128 ge2048 True Cons low refl] vs16
            have "\<forall>b\<in>set (utf8_bytes vs). b < 256" by simp
            moreover have "utf8_bytes (u # us) =
                (240 + n div 262144) # (128 + n div 4096 mod 64) # (128 + n div 64 mod 64) #
                (128 + n mod 64) # utf8_bytes vs"
              using ge128 ge2048 True Cons low by (simp add: Let_def n_def)
            ultimately show ?thesis
              using mod64_small[of n] mod64_small[of "n div 64"] mod64_small[of "n div 4096"]
              by simp
          next
            case False
            with "2.IH"(4)[OF ge128 ge2048 True Cons False] rest16 Cons ge128 ge2048 True
            show ?thesis by simp
          qed
        qed
      next
        case nh: False
        show ?thesis
        proof (cases "is_low u")
          case True
          with "2.IH"(5)[OF ge128 ge2048 nh True] rest16 ge128 ge2048 nh show ?thesis by simp
        next
          case False
          from u16 have "224 + u div 4096 < 256" by simp
          with "2.IH"(6)[OF ge128 ge2048 nh False] rest16 ge128 ge2048 nh False
            mod64_small[of u] mod64_small[of "u div 64"]
          show ?thesis by simp
        qed
      qed
    qed
  qed
qed

lemma unat_byte_of_nat: "b < 256 \<Longrightarrow> unat (word_of_nat b :: byte) = b"
  by (simp add: unsigned_of_nat take_bit_eq_mod)

lemma utf8_decode_encode:
  assumes "well_formed s"
  shows "utf8_decode (utf8_encode s) = s"
proof -
  have u16: "\<forall>u\<in>set (map unat s). u < 65536"
  proof
    fix u assume "u \<in> set (map unat s)"
    then obtain w :: "16 word" where "u = unat w" by auto
    with unsigned_less[of w] show "u < 65536" by simp
  qed
  from utf8_bytes_small[OF u16]
  have "map unat (map word_of_nat (utf8_bytes (map unat s)) :: bytes) = utf8_bytes (map unat s)"
    by (simp add: map_idI unat_byte_of_nat comp_def)
  moreover from assms u16 have "utf8_units (utf8_bytes (map unat s)) = map unat s"
    unfolding well_formed_def by (rule utf8_units_bytes)
  ultimately show ?thesis
    by (simp add: utf8_decode_def utf8_encode_def comp_def map_idI)
qed

lemma lone_surrogate: "utf8_decode (utf8_encode [0xD800]) = [0xFFFD]"
  by (simp add: utf8_decode_def utf8_encode_def is_high_def cont_def second_of3_def)

text \<open>The envelope.\<close>

lemma hex_val_digit: "n < 16 \<Longrightarrow> hex_val (hex_digit n) = Some n"
  by (auto simp: hex_val_def hex_digit_def Let_def)

lemma byte_of_nibbles:
  "(word_of_nat (16 * (unat b div 16) + unat b mod 16) :: byte) = b"
  by simp

lemma unat_byte_div16: "unat (b :: byte) div 16 < 16"
proof -
  have "unat b < 256" using unsigned_less[of b] by simp
  then show ?thesis by simp
qed

lemma from_hex_to_hex: "from_hex (to_hex bs) = bs"
proof (induction bs)
  case Nil
  show ?case by (simp add: to_hex_def)
next
  case (Cons b bs)
  have hi: "hex_val (hex_digit (unat b div 16)) = Some (unat b div 16)"
    by (rule hex_val_digit) (rule unat_byte_div16)
  have lo: "hex_val (hex_digit (unat b mod 16)) = Some (unat b mod 16)"
    by (rule hex_val_digit) simp
  have "to_hex (b # bs) = hex_digit (unat b div 16) # hex_digit (unat b mod 16) # to_hex bs"
    by (simp add: to_hex_def)
  with hi lo Cons.IH show ?case by (simp add: byte_of_nibbles del: of_nat_add of_nat_mult)
qed

lemma length_randomBytes: "length (randomBytes src n) = n"
  by (simp add: randomBytes_def)

lemma slices_of_layout:
  assumes "length iv = 16" and "length tag = 16"
  shows "slice 0 16 (iv @ tag @ ct) = iv"
    and "slice 16 32 (iv @ tag @ ct) = tag"
    and "slice_from 32 (iv @ tag @ ct) = ct"
  using assms by (simp_all add: slice_def slice_from_def)

lemma getEncryptionKey_ok:
  assumes "\<not> io_error E"
  shows "getEncryptionKey E st =
           (Inr (case encryptionKeyFile st of None \<Rightarrow> randomBytes (rand_key E) 32 | Some k \<Rightarrow> k),
            st\<lparr>encryptionKeyFile :=
                  Some (case encryptionKeyFile st of None \<Rightarrow> randomBytes (rand_key E) 32
                        | Some k \<Rightarrow> k)\<rparr>)"
proof (cases "encryptionKeyFile st")
  case None
  with assms show ?thesis by (simp add: getEncryptionKey_def Let_def)
next
  case (Some k)
  then have "st\<lparr>encryptionKeyFile := Some k\<rparr> = st" by simp
  with Some assms show ?thesis by (simp add: getEncryptionKey_def)
qed

lemma fallback_reads_codec:
  assumes os: "\<not> useOSStorage st"
      and aead: "aead_contract P"
      and io: "\<not> io_error E" "\<not> io_error E'"
      and kf: "key_file_ok st"
  shows "\<exists>key ct tag st'.
           encrypt P E st x = (Inr (randomBytes (rand_iv E) 16 @ tag @ ct), st') \<and>
           encryptionKeyFile st' = Some key \<and>
           aes_256_gcm_encrypt P key (randomBytes (rand_iv E) 16) (utf8_encode x) = Some (ct, tag) \<and>
           length (randomBytes (rand_iv E) 16) = 16 \<and> length tag = 16 \<and>
           decrypt P E' st' (randomBytes (rand_iv E) 16 @ tag @ ct) =
             (Some (utf8_decode (utf8_encode x)), st')"
proof -
  let ?key = "case encryptionKeyFile st of None \<Rightarrow> randomBytes (rand_key E) 32 | Some k \<Rightarrow> k"
  let ?st' = "st\<lparr>encryptionKeyFile := Some ?key\<rparr>"
  let ?iv = "randomBytes (rand_iv E) 16"
  have klen: "length ?key = 32"
    using kf by (simp add: key_file_ok_def length_randomBytes split: option.splits)
  have ivlen: "length ?iv = 16" by (rule length_randomBytes)
  from aead klen ivlen obtain ct tag where
    enc: "aes_256_gcm_encrypt P ?key ?iv (utf8_encode x) = Some (ct, tag)"
    and taglen: "length tag = 16"
    and dec: "aes_256_gcm_decrypt P ?key ?iv tag ct = Some (utf8_encode x)"
    unfolding aead_contract_def by blast
  have key1: "getEncryptionKey E st = (Inr ?key, ?st')"
    by (rule getEncryptionKey_ok[OF io(1)])
  have e: "encrypt P E st x = (Inr (?iv @ tag @ ct), ?st')"
    using os key1 enc by (simp add: encrypt_def Let_def from_hex_to_hex)
  have key2: "getEncryptionKey E' ?st' = (Inr ?key, ?st')"
    using getEncryptionKey_ok[OF io(2), of ?st'] by simp
  have d: "decrypt P E' ?st' (?iv @ tag @ ct) = (Some (utf8_decode (utf8_encode x)), ?st')"
    using os key2 dec slices_of_layout[OF ivlen taglen, of ct]
    by (simp add: decrypt_def Let_def)
  from e enc ivlen taglen d show ?thesis by auto
qed

lemma demo_aead_contract: "aead_contract demo_platform"
  by (simp add: aead_contract_def demo_platform_def toy_encrypt_def toy_decrypt_def
      toy_tag_def Let_def comp_def)

lemma demo_fallback_setting:
  "\<not> useOSStorage empty_store" "\<not> io_error (demo_env 1)" "\<not> io_error (demo_env 2)"
  "key_file_ok empty_store"
  by (simp_all add: empty_store_def demo_env_def key_file_ok_def)

text \<open>
  C3, as the claim states it, fails: the string that consists of the lone surrogate
  \<open>0xD800\<close> is encrypted without an exception, and decrypting the result returns the
  string that consists of \<open>0xFFFD\<close>.
\<close>

theorem lone_surrogate_not_read_back_counterexample:
  "\<not> isl (fst (encrypt demo_platform (demo_env 1) empty_store [0xD800])) \<and>
   fst (decrypt demo_platform (demo_env 2)
          (snd (encrypt demo_platform (demo_env 1) empty_store [0xD800]))
          (projr (fst (encrypt demo_platform (demo_env 1) empty_store [0xD800])))) =
     Some [0xFFFD] \<and>
   [0xFFFD] \<noteq> [0xD800 :: 16 word]"
proof -
  from fallback_reads_codec[OF demo_fallback_setting(1) demo_aead_contract
      demo_fallback_setting(2,3,4), of "[0xD800]"]
  obtain ct tag st' where
    e: "encrypt demo_platform (demo_env 1) empty_store [0xD800] =
          (Inr (randomBytes (rand_iv (demo_env 1)) 16 @ tag @ ct), st')"
    and d: "decrypt demo_platform (demo_env 2) st' (randomBytes (rand_iv (demo_env 1)) 16 @ tag @ ct) =
          (Some (utf8_decode (utf8_encode [0xD800])), st')"
    by blast
  from e d show ?thesis by (simp add: lone_surrogate)
qed

text \<open>
  C3, amended.  With the OS store not in use, working file I/O, a key file that is absent
  or holds a 256-bit key, and a cipher that meets its contract: for every string,
  \<open>_encrypt\<close> returns the 16-byte nonce followed by the 16-byte authentication tag
  followed by the ciphertext the cipher produced under the stored key, and \<open>_decrypt\<close>
  of that output returns what the \<open>'utf8'\<close> codec reads back from its own encoding of
  the string; for every string that is well-formed UTF-16 (no surrogate without its
  partner), empty or not, that is the string itself.
\<close>

theorem fallback_roundtrip:
  assumes os: "\<not> useOSStorage st"
      and aead: "aead_contract P"
      and io: "\<not> io_error E" "\<not> io_error E'"
      and kf: "key_file_ok st"
  shows "\<exists>key ct tag st'.
           encrypt P E st x = (Inr (randomBytes (rand_iv E) 16 @ tag @ ct), st') \<and>
           encryptionKeyFile st' = Some key \<and>
           aes_256_gcm_encrypt P key (randomBytes (rand_iv E) 16) (utf8_encode x) = Some (ct, tag) \<and>
           length (randomBytes (rand_iv E) 16) = 16 \<and> length tag = 16 \<and>
           decrypt P E' st' (randomBytes (rand_iv E) 16 @ tag @ ct) =
             (Some (utf8_decode (utf8_encode x)), st') \<and>
           (well_formed x \<longrightarrow>
              decrypt P E' st' (randomBytes (rand_iv E) 16 @ tag @ ct) = (Some x, st'))"
proof -
  from fallback_reads_codec[OF os aead io kf, of x]
  obtain key ct tag st' where
    e: "encrypt P E st x = (Inr (randomBytes (rand_iv E) 16 @ tag @ ct), st')"
    and k: "encryptionKeyFile st' = Some key"
    and c: "aes_256_gcm_encrypt P key (randomBytes (rand_iv E) 16) (utf8_encode x) = Some (ct, tag)"
    and l: "length (randomBytes (rand_iv E) 16) = 16" "length tag = 16"
    and d: "decrypt P E' st' (randomBytes (rand_iv E) 16 @ tag @ ct) =
              (Some (utf8_decode (utf8_encode x)), st')"
    by blast
  from d have "well_formed x \<longrightarrow>
      decrypt P E' st' (randomBytes (rand_iv E) 16 @ tag @ ct) = (Some x, st')"
    by (simp add: utf8_decode_encode)
  with e k c l d show ?thesis by blast
qed

lemma well_formed_example: "well_formed [0x68, 0xE9, 0x20AC, 0xD83D, 0xDE00]"
  by (simp add: well_formed_def is_high_def is_low_def)

theorem fallback_roundtrip_witness:
  "\<not> useOSStorage empty_store \<and> aead_contract demo_platform \<and>
   \<not> io_error (demo_env 1) \<and> \<not> io_error (demo_env 2) \<and> key_file_ok empty_store \<and>
   well_formed [0x68, 0xE9, 0x20AC, 0xD83D, 0xDE00] \<and>
   (\<exists>key ct tag st'.
      encrypt demo_platform (demo_env 1) empty_store [0x68, 0xE9, 0x20AC, 0xD83D, 0xDE00] =
        (Inr (randomBytes (rand_iv (demo_env 1)) 16 @ tag @ ct), st') \<and>
      encryptionKeyFile st' = Some key \<and>
      aes_256_gcm_encrypt demo_platform key (randomBytes (rand_iv (demo_env 1)) 16)
        (utf8_encode [0x68, 0xE9, 0x20AC, 0xD83D, 0xDE00]) = Some (ct, tag) \<and>
      length (randomBytes (rand_iv (demo_env 1)) 16) = 16 \<and> length tag = 16 \<and>
      decrypt demo_platform (demo_env 2) st' (randomBytes (rand_iv (demo_env 1)) 16 @ tag @ ct) =
        (Some [0x68, 0xE9, 0x20AC, 0xD83D, 0xDE00], st'))"
proof -
  from fallback_roundtrip[OF demo_fallback_setting(1) demo_aead_contract
      demo_fallback_setting(2,3,4), of "[0x68, 0xE9, 0x20AC, 0xD83D, 0xDE00]"]
    well_formed_example
  have "\<exists>key ct tag st'.
      encrypt demo_platform (demo_env 1) empty_store [0x68, 0xE9, 0x20AC, 0xD83D, 0xDE00] =
        (Inr (randomBytes (rand_iv (demo_env 1)) 16 @ tag @ ct), st') \<and>
      encryptionKeyFile st' = Some key \<and>
      aes_256_gcm_encrypt demo_platform key (randomBytes (rand_iv (demo_env 1)) 16)
        (utf8_encode [0x68, 0xE9, 0x20AC, 0xD83D, 0xDE00]) = Some (ct, tag) \<and>
      length (randomBytes (rand_iv (demo_env 1)) 16) = 16 \<and> length tag = 16 \<and>
      decrypt demo_platform (demo_env 2) st' (randomBytes (rand_iv (demo_env 1)) 16 @ tag @ ct) =
        (Some [0x68, 0xE9, 0x20AC, 0xD83D, 0xDE00], st')"
    by blast
  with demo_fallback_setting demo_aead_contract well_formed_example show ?thesis by blast
qed


subsection \<open>C6: a blob that cannot be read leaves the cache empty\<close>

lemma initialize_eq:
  "initialize P E st = loadCredentials P E (before_load P E st)"
proof -
  have p: "fst (probeOSStorage P st) = None"
    by (simp add: probeOSStorage_def split: option.splits)
  have n: "fst (loadNeverSaveSites P E s) = None" for s
    by (simp add: loadNeverSaveSites_def split: option.splits)
  obtain s0 where s0: "probeOSStorage P st = (None, s0)"
    using p by (cases "probeOSStorage P st") auto
  obtain s1 where s1: "loadNeverSaveSites P E s0 = (None, s1)"
    using n[of s0] by (cases "loadNeverSaveSites P E s0") auto
  from s0 s1 show ?thesis
    by (simp add: initialize_def and_then_def before_load_def)
qed

lemma loadCredentials_no_exception: "fst (loadCredentials P E st) = None"
  by (cases "loadCredentials_try P E st"; cases "fst (loadCredentials_try P E st)")
     (auto simp: loadCredentials_def)

lemma before_load_frame:
  "credentialsCache (before_load P E st) = credentialsCache st \<and>
   credentialsFile (before_load P E st) = credentialsFile st"
  by (simp add: before_load_def probeOSStorage_def loadNeverSaveSites_def
      split: option.splits)

lemma decrypt_cache: "credentialsCache (snd (decrypt P E st b)) = credentialsCache st"
  using decrypt_frame[of P E st b] by auto

lemma loadCredentials_unreadable:
  assumes "credentialsFile st = Some blob"
      and "fst (decrypt P E st blob) = None \<or>
           (\<exists>txt. fst (decrypt P E st blob) = Some txt \<and> JSON_parse_credentials P txt = None)"
  shows "credentialsCache (snd (loadCredentials P E st)) = credentialsCache st"
proof -
  obtain r s where d: "decrypt P E st blob = (r, s)" by (cases "decrypt P E st blob")
  with decrypt_cache[of P E st blob] have c: "credentialsCache s = credentialsCache st" by simp
  from assms(2) d have "r = None \<or> (\<exists>txt. r = Some txt \<and> JSON_parse_credentials P txt = None)"
    by simp
  then have "snd (loadCredentials_try P E st) = st \<or> snd (loadCredentials_try P E st) = s"
    using assms(1) d
    by (auto simp: loadCredentials_try_def falsy_def split: option.splits)
  moreover have "snd (loadCredentials P E st) = snd (loadCredentials_try P E st)"
    by (cases "loadCredentials_try P E st"; cases "fst (loadCredentials_try P E st)")
       (auto simp: loadCredentials_def)
  ultimately show ?thesis using c by auto
qed

text \<open>
  C6.  When the credentials file holds a blob that \<open>_decrypt\<close> cannot read, or whose
  plaintext \<open>JSON.parse\<close> rejects, the constructor's \<open>_initialize\<close> returns without
  an exception and the cache of the new manager is empty; this holds whatever the
  platform does and also when file I/O fails.
\<close>

theorem unreadable_blob_leaves_cache_empty:
  assumes "s = before_load P E (fresh_manager (Some blob) neverFile keyFile)"
      and "fst (decrypt P E s blob) = None \<or>
           (\<exists>txt. fst (decrypt P E s blob) = Some txt \<and> JSON_parse_credentials P txt = None)"
  shows "fst (new_CredentialManager P E (Some blob) neverFile keyFile) = None \<and>
         credentialsCache (snd (new_CredentialManager P E (Some blob) neverFile keyFile)) = []"
proof -
  let ?st = "fresh_manager (Some blob) neverFile keyFile"
  have new: "new_CredentialManager P E (Some blob) neverFile keyFile = loadCredentials P E s"
    using assms(1) by (simp add: new_CredentialManager_def fresh_manager_def initialize_eq)
  have onDisk: "credentialsFile s = Some blob"
    using assms(1) before_load_frame[of P E ?st] by (simp add: fresh_manager_def)
  have noCreds: "credentialsCache s = []"
    using assms(1) before_load_frame[of P E ?st] by (simp add: fresh_manager_def)
  from loadCredentials_unreadable[OF onDisk assms(2)] noCreds
  have "credentialsCache (snd (loadCredentials P E s)) = []" by simp
  with new loadCredentials_no_exception[of P E s] show ?thesis by simp
qed

theorem unreadable_blob_leaves_cache_empty_witness:
  "fst (decrypt demo_platform (demo_env 1)
          (before_load demo_platform (demo_env 1) (fresh_manager (Some [1, 2, 3]) None None))
          [1, 2, 3]) = None \<and>
   fst (new_CredentialManager demo_platform (demo_env 1) (Some [1, 2, 3]) None None) = None \<and>
   credentialsCache
     (snd (new_CredentialManager demo_platform (demo_env 1) (Some [1, 2, 3]) None None)) = []"
proof -
  let ?s = "before_load demo_platform (demo_env 1) (fresh_manager (Some [1, 2, 3]) None None)"
  have s: "?s = \<lparr>useOSStorage = False, credentialsCache = [], neverSaveSites = [],
                  credentialsFile = Some [1, 2, 3], neverSaveFile = None,
                  encryptionKeyFile = None\<rparr>"
    by (simp add: before_load_def fresh_manager_def probeOSStorage_def loadNeverSaveSites_def
        demo_platform_def new_Set_def)
  have unreadable: "fst (decrypt demo_platform (demo_env 1) ?s [1, 2, 3]) = None"
    unfolding s
    by (simp add: decrypt_def getEncryptionKey_def demo_env_def demo_platform_def Let_def
        toy_decrypt_def toy_tag_def slice_def slice_from_def)
  from unreadable_blob_leaves_cache_empty[OF refl, of demo_platform "demo_env 1" "[1, 2, 3]"
      None None] unreadable
  show ?thesis by blast
qed


section \<open>Properties of the ad blocker\<close>

lemma shouldBlock_rules:
  "shouldBlock P ab u pageUrl =
     (enabled ab \<and> \<not> (pageUrl \<noteq> [] \<and> isWhitelisted P ab pageUrl) \<and> matches_rules u pageUrl)"
  by (simp add: shouldBlock_def matches_rules_def Let_def)

lemma doubleclick_in_table: "''doubleclick.net'' \<in> set AD_DOMAINS"
  by (simp add: AD_DOMAINS_def)

lemma includes_doubleclick:
  "includes_str (toLowerCase ''https://doubleclick.net/ads/x.js'') ''doubleclick.net''"
  by (simp add: toLowerCase_def toLowerCase_char_def startsWith_def Let_def)

lemma doubleclick_matches: "matches_rules ''https://doubleclick.net/ads/x.js'' pageUrl"
proof -
  have "list_ex (\<lambda>domain. includes_str (toLowerCase ''https://doubleclick.net/ads/x.js'') domain)
          AD_DOMAINS"
    unfolding list_ex_iff using doubleclick_in_table includes_doubleclick by blast
  then show ?thesis by (simp add: matches_rules_def)
qed

lemma demo_news_url:
  "new_URL demo_platform ''https://news.example/'' =
     Some \<lparr>protocol = ''https:'', host = ''news.example'', hostname = ''news.example''\<rparr>"
  by (simp add: new_URL_def demo_platform_def parse_http_url_def mk_url_def authority_of_def
      Let_def)

subsection \<open>C7: requests of a whitelisted page are not blocked\<close>

text \<open>
  C7.  For every request URL and every page URL that parses to a hostname in the
  whitelist, \<open>shouldBlock\<close> returns false, whatever the domain table, the patterns and
  the video-site check say about the request URL.
\<close>

theorem whitelist_bypass:
  assumes "new_URL P pageUrl = Some parsed" and "hostname parsed \<in> set (whitelist ab)"
  shows "\<not> shouldBlock P ab requestUrl pageUrl"
proof -
  from assms(1) have ne: "pageUrl \<noteq> []"
    by (auto simp: new_URL_def split: if_splits)
  from assms have "isWhitelisted P ab pageUrl"
    by (simp add: isWhitelisted_def set_has_def)
  with ne show ?thesis by (simp add: shouldBlock_rules)
qed

theorem whitelist_bypass_witness:
  "new_URL demo_platform ''https://news.example/'' =
     Some \<lparr>protocol = ''https:'', host = ''news.example'', hostname = ''news.example''\<rparr> \<and>
   ''news.example'' \<in> set (whitelist demo_blocker) \<and>
   matches_rules ''https://doubleclick.net/ads/x.js'' ''https://news.example/'' \<and>
   shouldBlock demo_platform (demo_blocker\<lparr>whitelist := []\<rparr>)
     ''https://doubleclick.net/ads/x.js'' ''https://news.example/'' \<and>
   \<not> shouldBlock demo_platform demo_blocker
       ''https://doubleclick.net/ads/x.js'' ''https://news.example/''"
proof -
  have wl: "hostname \<lparr>protocol = ''https:'', host = ''news.example'', hostname = ''news.example''\<rparr>
              \<in> set (whitelist demo_blocker)"
    by (simp add: demo_blocker_def)
  have unlisted: "shouldBlock demo_platform (demo_blocker\<lparr>whitelist := []\<rparr>)
     ''https://doubleclick.net/ads/x.js'' ''https://news.example/''"
    using doubleclick_matches[of "''https://news.example/''"] demo_news_url
    by (simp add: shouldBlock_rules isWhitelisted_def set_has_def demo_blocker_def)
  from whitelist_bypass[OF demo_news_url wl, of "''https://doubleclick.net/ads/x.js''"]
    demo_news_url wl unlisted doubleclick_matches[of "''https://news.example/''"]
  show ?thesis by simp
qed


subsection \<open>C8: main-frame requests are never cancelled\<close>

lemma or_empty_None: "or_empty None = []"
  by (simp add: or_empty_def)

lemma cancel_onBeforeRequest:
  "cancel (onBeforeRequest P mainWindow ls ab details) =
     (enabled ab \<and> d_resourceType details \<noteq> ''mainFrame'' \<and>
      shouldBlock P ab (d_url details) (or_empty (d_referrer details)))"
  by (simp add: onBeforeRequest_def Let_def split: prod.splits)

lemma cancelled_is_subresource:
  "cancel (onBeforeRequest P mainWindow ls ab details) \<longrightarrow> d_resourceType details \<noteq> ''mainFrame''"
  by (simp add: cancel_onBeforeRequest)

text \<open>
  C8.  For a request whose resource type is \<open>mainFrame\<close> the handler answers
  \<open>cancel: false\<close>, records nothing and sends nothing, whatever its URL; and a request
  that the handler cancels is not a main-frame request.
\<close>

theorem main_frame_never_cancelled:
  "(d_resourceType details = ''mainFrame'' \<longrightarrow>
      onBeforeRequest P mainWindow ls ab details =
        \<lparr>cancel = False, blocker = ab, storage = ls, sent = None\<rparr>) \<and>
   (cancel (onBeforeRequest P mainWindow ls ab details) \<longrightarrow>
      d_resourceType details \<noteq> ''mainFrame'')"
  by (simp add: cancelled_is_subresource) (simp add: onBeforeRequest_def Let_def)

theorem main_frame_never_cancelled_witness:
  "matches_rules ''https://doubleclick.net/ads/x.js'' [] \<and>
   onBeforeRequest demo_platform True (Storage None) demo_blocker
     \<lparr>d_url = ''https://doubleclick.net/ads/x.js'', d_resourceType = ''mainFrame'',
      d_referrer = None, d_webContentsId = Some 12\<rparr> =
     \<lparr>cancel = False, blocker = demo_blocker, storage = Storage None, sent = None\<rparr> \<and>
   cancel (onBeforeRequest demo_platform True (Storage None) demo_blocker
     \<lparr>d_url = ''https://doubleclick.net/ads/x.js'', d_resourceType = ''script'',
      d_referrer = None, d_webContentsId = Some 12\<rparr>) \<and>
   d_resourceType \<lparr>d_url = ''https://doubleclick.net/ads/x.js'', d_resourceType = ''script'',
      d_referrer = None, d_webContentsId = Some 12\<rparr> \<noteq> ''mainFrame''"
proof -
  let ?main = "\<lparr>d_url = ''https://doubleclick.net/ads/x.js'', d_resourceType = ''mainFrame'',
                 d_referrer = None, d_webContentsId = Some 12\<rparr>"
  let ?script = "\<lparr>d_url = ''https://doubleclick.net/ads/x.js'', d_resourceType = ''script'',
                   d_referrer = None, d_webContentsId = Some 12\<rparr>"
  have sub: "cancel (onBeforeRequest demo_platform True (Storage None) demo_blocker ?script)"
    using doubleclick_matches[of "[]"]
    by (simp add: cancel_onBeforeRequest shouldBlock_rules or_empty_None demo_blocker_def)
  have top: "d_resourceType ?main = ''mainFrame''" by simp
  from main_frame_never_cancelled[where details = ?main and P = demo_platform
      and mainWindow = True and ls = "Storage None" and ab = demo_blocker] top
  have first: "onBeforeRequest demo_platform True (Storage None) demo_blocker ?main =
     \<lparr>cancel = False, blocker = demo_blocker, storage = Storage None, sent = None\<rparr>"
    by blast
  from main_frame_never_cancelled[where details = ?script and P = demo_platform
      and mainWindow = True and ls = "Storage None" and ab = demo_blocker] sub
  have second: "d_resourceType ?script \<noteq> ''mainFrame''"
    by blast
  from first second sub doubleclick_matches[of "[]"] show ?thesis by blast
qed


subsection \<open>C9: what is written to storage, and when\<close>

lemma set_new_Set_acc: "set (foldl (\<lambda>s x. set_add x s) acc xs) = set acc \<union> set xs"
  by (induction xs arbitrary: acc) (auto simp: set_add_def)

lemma set_new_Set: "set (new_Set xs) = set xs"
  by (simp add: new_Set_def set_new_Set_acc)

lemma restart_from_snapshot:
  "enabled (new_AdBlocker (Storage (Some (snapshot ab)))) = enabled ab \<and>
   set (whitelist (new_AdBlocker (Storage (Some (snapshot ab))))) = set (whitelist ab) \<and>
   totalBlocked (stats (new_AdBlocker (Storage (Some (snapshot ab))))) = totalBlocked (stats ab) \<and>
   sessionBlocked (stats (new_AdBlocker (Storage (Some (snapshot ab))))) = 0"
  by (simp add: new_AdBlocker_def loadSettings_def snapshot_def set_new_Set)

lemma saveSettings_Storage: "saveSettings (Storage old) ab = Storage (Some (snapshot ab))"
  by (simp add: saveSettings_def snapshot_def)

lemma saveSettings_Unavailable: "saveSettings Unavailable ab = Unavailable"
  by (simp add: saveSettings_def)

lemma js_incr_exact: "n < 2 ^ 53 \<Longrightarrow> js_incr n = n + 1"
  by (simp add: js_incr_def)

lemma recordBlocked_object:
  "fst (recordBlocked ls ab tabId) =
     ab\<lparr>stats := \<lparr>totalBlocked = js_incr (totalBlocked (stats ab)),
                   sessionBlocked = js_incr (sessionBlocked (stats ab)),
                   blockedByTab = AList.update tabId (js_incr (getBlockedCount ab tabId))
                                    (blockedByTab (stats ab))\<rparr>\<rparr>"
  by (simp add: recordBlocked_def Let_def getBlockedCount_def)

lemma recordBlocked_storage:
  "snd (recordBlocked (Storage old) ab tabId) =
     (if js_incr (sessionBlocked (stats ab)) mod 10 = 0
      then Storage (Some (snapshot (fst (recordBlocked (Storage old) ab tabId))))
      else Storage old)"
  by (simp add: recordBlocked_def Let_def saveSettings_Storage)

text \<open>
  C9, as the claim states it, fails: after one blocked request the counter in memory is 1
  while the storage is untouched, and an \<open>AdBlocker\<close> constructed from that storage
  starts at 0 again.
\<close>

theorem recordBlocked_not_persisted_counterexample:
  "totalBlocked (stats (fst (recordBlocked (Storage None) (new_AdBlocker (Storage None)) ''12''))) = 1 \<and>
   snd (recordBlocked (Storage None) (new_AdBlocker (Storage None)) ''12'') = Storage None \<and>
   totalBlocked (stats (new_AdBlocker
      (snd (recordBlocked (Storage None) (new_AdBlocker (Storage None)) ''12'')))) = 0"
  by (simp add: recordBlocked_def Let_def new_AdBlocker_def loadSettings_def js_incr_def)

text \<open>
  C9, amended.  Where \<open>localStorage\<close> exists, \<open>toggle\<close> returns the new enabled state
  and writes the settings at once, and so do \<open>addToWhitelist\<close> and
  \<open>removeFromWhitelist\<close>; an \<open>AdBlocker\<close> constructed from what was written has that
  enabled state, that whitelist and that total.  \<open>recordBlocked\<close> increments the
  session counter, the total counter and the counter of the tab in memory, by one while a
  counter is below \<open>2^53\<close>, and changes nothing else of the object; it writes the
  settings only when the new session counter is a multiple of ten, and otherwise leaves
  the storage as it was.  Where \<open>localStorage\<close> does not exist, none of the four writes
  anything.
\<close>

theorem block_state_persistence:
  "toggle (Storage old) ab =
     (\<not> enabled ab, ab\<lparr>enabled := \<not> enabled ab\<rparr>,
      Storage (Some (snapshot (ab\<lparr>enabled := \<not> enabled ab\<rparr>)))) \<and>
   enabled (new_AdBlocker (snd (snd (toggle (Storage old) ab)))) = fst (toggle (Storage old) ab) \<and>
   addToWhitelist (Storage old) ab domain =
     (ab\<lparr>whitelist := set_add domain (whitelist ab)\<rparr>,
      Storage (Some (snapshot (ab\<lparr>whitelist := set_add domain (whitelist ab)\<rparr>)))) \<and>
   removeFromWhitelist (Storage old) ab domain =
     (ab\<lparr>whitelist := set_delete domain (whitelist ab)\<rparr>,
      Storage (Some (snapshot (ab\<lparr>whitelist := set_delete domain (whitelist ab)\<rparr>)))) \<and>
   set (whitelist (new_AdBlocker (snd (addToWhitelist (Storage old) ab domain)))) =
     insert domain (set (whitelist ab)) \<and>
   set (whitelist (new_AdBlocker (snd (removeFromWhitelist (Storage old) ab domain)))) =
     set (whitelist ab) - {domain} \<and>
   fst (recordBlocked ls ab tabId) =
     ab\<lparr>stats := \<lparr>totalBlocked = js_incr (totalBlocked (stats ab)),
                   sessionBlocked = js_incr (sessionBlocked (stats ab)),
                   blockedByTab = AList.update tabId (js_incr (getBlockedCount ab tabId))
                                    (blockedByTab (stats ab))\<rparr>\<rparr> \<and>
   (n < 2 ^ 53 \<longrightarrow> js_incr n = n + 1) \<and>
   snd (recordBlocked (Storage old) ab tabId) =
     (if js_incr (sessionBlocked (stats ab)) mod 10 = 0
      then Storage (Some (snapshot (fst (recordBlocked (Storage old) ab tabId))))
      else Storage old) \<and>
   totalBlocked (stats (new_AdBlocker (Storage (Some (snapshot ab))))) = totalBlocked (stats ab) \<and>
   snd (snd (toggle Unavailable ab)) = Unavailable \<and>
   snd (addToWhitelist Unavailable ab domain) = Unavailable \<and>
   snd (removeFromWhitelist Unavailable ab domain) = Unavailable \<and>
   snd (recordBlocked Unavailable ab tabId) = Unavailable"
proof (intro conjI)
  show "toggle (Storage old) ab =
     (\<not> enabled ab, ab\<lparr>enabled := \<not> enabled ab\<rparr>,
      Storage (Some (snapshot (ab\<lparr>enabled := \<not> enabled ab\<rparr>))))"
    by (simp add: toggle_def Let_def saveSettings_Storage)
  show "enabled (new_AdBlocker (snd (snd (toggle (Storage old) ab)))) = fst (toggle (Storage old) ab)"
    using restart_from_snapshot[of "ab\<lparr>enabled := \<not> enabled ab\<rparr>"]
    by (simp add: toggle_def Let_def saveSettings_Storage)
  show "addToWhitelist (Storage old) ab domain =
     (ab\<lparr>whitelist := set_add domain (whitelist ab)\<rparr>,
      Storage (Some (snapshot (ab\<lparr>whitelist := set_add domain (whitelist ab)\<rparr>))))"
    by (simp add: addToWhitelist_def Let_def saveSettings_Storage)
  show "removeFromWhitelist (Storage old) ab domain =
     (ab\<lparr>whitelist := set_delete domain (whitelist ab)\<rparr>,
      Storage (Some (snapshot (ab\<lparr>whitelist := set_delete domain (whitelist ab)\<rparr>))))"
    by (simp add: removeFromWhitelist_def Let_def saveSettings_Storage)
  show "set (whitelist (new_AdBlocker (snd (addToWhitelist (Storage old) ab domain)))) =
     insert domain (set (whitelist ab))"
    using restart_from_snapshot[of "ab\<lparr>whitelist := set_add domain (whitelist ab)\<rparr>"]
    by (auto simp: addToWhitelist_def Let_def saveSettings_Storage set_add_def)
  show "set (whitelist (new_AdBlocker (snd (removeFromWhitelist (Storage old) ab domain)))) =
     set (whitelist ab) - {domain}"
    using restart_from_snapshot[of "ab\<lparr>whitelist := set_delete domain (whitelist ab)\<rparr>"]
    by (auto simp: removeFromWhitelist_def Let_def saveSettings_Storage set_delete_def)
  show "fst (recordBlocked ls ab tabId) =
     ab\<lparr>stats := \<lparr>totalBlocked = js_incr (totalBlocked (stats ab)),
                   sessionBlocked = js_incr (sessionBlocked (stats ab)),
                   blockedByTab = AList.update tabId (js_incr (getBlockedCount ab tabId))
                                    (blockedByTab (stats ab))\<rparr>\<rparr>"
    by (rule recordBlocked_object)
  show "n < 2 ^ 53 \<longrightarrow> js_incr n = n + 1"
    by (simp add: js_incr_exact)
  show "snd (recordBlocked (Storage old) ab tabId) =
     (if js_incr (sessionBlocked (stats ab)) mod 10 = 0
      then Storage (Some (snapshot (fst (recordBlocked (Storage old) ab tabId))))
      else Storage old)"
    by (rule recordBlocked_storage)
  show "totalBlocked (stats (new_AdBlocker (Storage (Some (snapshot ab))))) = totalBlocked (stats ab)"
    using restart_from_snapshot by blast
  show "snd (snd (toggle Unavailable ab)) = Unavailable"
    by (simp add: toggle_def Let_def saveSettings_Unavailable)
  show "snd (addToWhitelist Unavailable ab domain) = Unavailable"
    by (simp add: addToWhitelist_def Let_def saveSettings_Unavailable)
  show "snd (removeFromWhitelist Unavailable ab domain) = Unavailable"
    by (simp add: removeFromWhitelist_def Let_def saveSettings_Unavailable)
  show "snd (recordBlocked Unavailable ab tabId) = Unavailable"
    by (simp add: recordBlocked_def Let_def saveSettings_Unavailable)
qed

theorem block_state_persistence_witness:
  "fst (toggle (Storage None) demo_blocker) = False \<and>
   enabled (new_AdBlocker (snd (snd (toggle (Storage None) demo_blocker)))) = False \<and>
   (9 :: nat) < 2 ^ 53 \<and> js_incr 9 = 10 \<and>
   fst (recordBlocked (Storage None) demo_blocker ''12'') =
     demo_blocker\<lparr>stats := \<lparr>totalBlocked = 1, sessionBlocked = 1, blockedByTab = [(''12'', 1)]\<rparr>\<rparr> \<and>
   snd (recordBlocked (Storage None) demo_blocker ''12'') = Storage None \<and>
   snd (recordBlocked (Storage None)
          (demo_blocker\<lparr>stats := \<lparr>totalBlocked = 9, sessionBlocked = 9, blockedByTab = []\<rparr>\<rparr>)
          ''12'') =
     Storage (Some \<lparr>p_enabled = Some True, p_whitelist = Some [''news.example''],
                    p_totalBlocked = Some 10\<rparr>)"
proof -
  let ?ninth = "demo_blocker\<lparr>stats := \<lparr>totalBlocked = 9, sessionBlocked = 9, blockedByTab = []\<rparr>\<rparr>"
  note fresh = block_state_persistence[where old = None and ab = demo_blocker
      and domain = "''ads.example''" and tabId = "''12''" and ls = "Storage None" and n = 0]
  note tenth = block_state_persistence[where old = None and ab = ?ninth
      and domain = "''ads.example''" and tabId = "''12''" and ls = "Storage None" and n = 9]
  have small: "(9 :: nat) < 2 ^ 53" "(0 :: nat) < 2 ^ 53" by simp_all
  from tenth small have nine: "js_incr 9 = 10" by simp
  from fresh small have zero: "js_incr 0 = 1" by simp
  from fresh
  have t: "toggle (Storage None) demo_blocker =
             (\<not> enabled demo_blocker, demo_blocker\<lparr>enabled := \<not> enabled demo_blocker\<rparr>,
              Storage (Some (snapshot (demo_blocker\<lparr>enabled := \<not> enabled demo_blocker\<rparr>))))"
    and r: "enabled (new_AdBlocker (snd (snd (toggle (Storage None) demo_blocker)))) =
              fst (toggle (Storage None) demo_blocker)"
    and o1: "fst (recordBlocked (Storage None) demo_blocker ''12'') =
              demo_blocker\<lparr>stats := \<lparr>totalBlocked = js_incr (totalBlocked (stats demo_blocker)),
                   sessionBlocked = js_incr (sessionBlocked (stats demo_blocker)),
                   blockedByTab = AList.update ''12'' (js_incr (getBlockedCount demo_blocker ''12''))
                                    (blockedByTab (stats demo_blocker))\<rparr>\<rparr>"
    and w1: "snd (recordBlocked (Storage None) demo_blocker ''12'') =
              (if js_incr (sessionBlocked (stats demo_blocker)) mod 10 = 0
               then Storage (Some (snapshot (fst (recordBlocked (Storage None) demo_blocker ''12''))))
               else Storage None)"
    by blast+
  from tenth
  have o10: "fst (recordBlocked (Storage None) ?ninth ''12'') =
              ?ninth\<lparr>stats := \<lparr>totalBlocked = js_incr (totalBlocked (stats ?ninth)),
                   sessionBlocked = js_incr (sessionBlocked (stats ?ninth)),
                   blockedByTab = AList.update ''12'' (js_incr (getBlockedCount ?ninth ''12''))
                                    (blockedByTab (stats ?ninth))\<rparr>\<rparr>"
    and w10: "snd (recordBlocked (Storage None) ?ninth ''12'') =
              (if js_incr (sessionBlocked (stats ?ninth)) mod 10 = 0
               then Storage (Some (snapshot (fst (recordBlocked (Storage None) ?ninth ''12''))))
               else Storage None)"
    by blast+
  from t have a: "fst (toggle (Storage None) demo_blocker) = False"
    by (simp add: demo_blocker_def)
  from r a have b: "enabled (new_AdBlocker (snd (snd (toggle (Storage None) demo_blocker)))) = False"
    by simp
  from o1 zero have c0: "fst (recordBlocked (Storage None) demo_blocker ''12'') =
     demo_blocker\<lparr>stats := \<lparr>totalBlocked = 1, sessionBlocked = 1, blockedByTab = [(''12'', 1)]\<rparr>\<rparr>"
    by (simp add: demo_blocker_def getBlockedCount_def)
  from w1 zero have c: "snd (recordBlocked (Storage None) demo_blocker ''12'') = Storage None"
    by (simp add: demo_blocker_def)
  from w10 o10 nine zero have d: "snd (recordBlocked (Storage None) ?ninth ''12'') =
     Storage (Some \<lparr>p_enabled = Some True, p_whitelist = Some [''news.example''],
                    p_totalBlocked = Some 10\<rparr>)"
    by (simp add: snapshot_def demo_blocker_def)
  from a b c0 c d small(1) nine show ?thesis by blast
qed


subsection \<open>C10: with an empty page URL the whitelist is not consulted\<close>

lemma or_empty_cases: "or_empty r = [] \<longleftrightarrow> r = None \<or> r = Some []"
  by (cases r) (auto simp: or_empty_def)

text \<open>
  C10.  With the empty string as page URL, \<open>shouldBlock\<close> is the enabled flag together
  with the domain table, the patterns and the video-site check, and the whitelist plays no
  part.  The handler passes the referrer, or the empty string when there is none; so a
  subresource request without a referrer is cancelled exactly when the blocker is enabled
  and one of the three checks matches its URL, also when the hostname of the page that
  issued it is in the whitelist.
\<close>

theorem empty_page_url_ignores_whitelist:
  "shouldBlock P ab u [] = (enabled ab \<and> matches_rules u []) \<and>
   shouldBlock P (ab\<lparr>whitelist := w\<rparr>) u [] = shouldBlock P ab u [] \<and>
   ((d_referrer details = None \<or> d_referrer details = Some []) \<longrightarrow>
      d_resourceType details \<noteq> ''mainFrame'' \<longrightarrow>
      cancel (onBeforeRequest P mainWindow ls ab details) =
        (enabled ab \<and> matches_rules (d_url details) []))"
proof (intro conjI impI)
  show "shouldBlock P ab u [] = (enabled ab \<and> matches_rules u [])"
    by (simp add: shouldBlock_rules)
  show "shouldBlock P (ab\<lparr>whitelist := w\<rparr>) u [] = shouldBlock P ab u []"
    by (simp add: shouldBlock_rules)
next
  assume "d_referrer details = None \<or> d_referrer details = Some []"
    and "d_resourceType details \<noteq> ''mainFrame''"
  then show "cancel (onBeforeRequest P mainWindow ls ab details) =
        (enabled ab \<and> matches_rules (d_url details) [])"
    using or_empty_cases[of "d_referrer details"]
    by (auto simp: cancel_onBeforeRequest shouldBlock_rules)
qed

theorem empty_page_url_ignores_whitelist_witness:
  "''news.example'' \<in> set (whitelist demo_blocker) \<and>
   \<not> shouldBlock demo_platform demo_blocker
       ''https://doubleclick.net/ads/x.js'' ''https://news.example/'' \<and>
   shouldBlock demo_platform demo_blocker ''https://doubleclick.net/ads/x.js'' [] \<and>
   cancel (onBeforeRequest demo_platform True (Storage None) demo_blocker
     \<lparr>d_url = ''https://doubleclick.net/ads/x.js'', d_resourceType = ''script'',
      d_referrer = None, d_webContentsId = Some 12\<rparr>)"
proof -
  let ?d = "\<lparr>d_url = ''https://doubleclick.net/ads/x.js'', d_resourceType = ''script'',
              d_referrer = None, d_webContentsId = Some 12\<rparr>"
  note inst = empty_page_url_ignores_whitelist[where P = demo_platform and ab = demo_blocker
      and u = "''https://doubleclick.net/ads/x.js''" and w = "[]" and details = ?d
      and mainWindow = True and ls = "Storage None"]
  have en: "enabled demo_blocker" by (simp add: demo_blocker_def)
  have wl: "''news.example'' \<in> set (whitelist demo_blocker)" by (simp add: demo_blocker_def)
  have listed: "\<not> shouldBlock demo_platform demo_blocker
       ''https://doubleclick.net/ads/x.js'' ''https://news.example/''"
    using demo_news_url wl
    by (simp add: shouldBlock_rules isWhitelisted_def set_has_def)
  from inst en doubleclick_matches[of "[]"]
  have direct: "shouldBlock demo_platform demo_blocker ''https://doubleclick.net/ads/x.js'' []"
    by simp
  from inst en doubleclick_matches[of "[]"]
  have handler: "cancel (onBeforeRequest demo_platform True (Storage None) demo_blocker ?d)"
    by simp
  from wl listed direct handler show ?thesis by blast
qed


end
